theory Spec2Isabelle
  imports Complex_Main "HOL-Library.AList"
begin

section \<open>Piggyback data staleness and lifecycle (cmk/utils/piggyback.py)\<close>

text \<open>
  A shallow embedding of \<^verbatim>\<open>cmk/utils/piggyback.py\<close>. The module keeps its state in two
  directories: \<^verbatim>\<open>piggyback_dir/TARGET/SOURCE\<close> holds the payload a source relays for a
  target, \<^verbatim>\<open>piggyback_source_dir/SOURCE\<close> is the zero-byte status file of a source.
  The embedding threads a value of type \<open>filesystem\<close> through the functions; every
  exception of the source is a value of type \<open>exn\<close> in the left summand of the result.

  Conventions of the embedding:
  \<^item> Python names keep their spelling without the leading underscore.
  \<^item> \<^verbatim>\<open>bytes\<close> and \<^verbatim>\<open>str\<close> are both \<open>string\<close> (a \<open>char\<close> is one byte).
  \<^item> Time stamps and \<^verbatim>\<open>time.time()\<close> are exact reals (seconds). A \<open>clock\<close> gives the
    reading of \<^verbatim>\<open>time.time()\<close> at the moment the running operation examines or creates a
    path. The rounding of floats is left out where a stamp is only read and compared with
    a bound. It is kept where the writer copies the stamps of one file to another: they
    travel through a float, and that round trip is a parameter of the writer.
  \<^item> A directory is an association list from entry names to entries; \<^verbatim>\<open>iterdir\<close>
    enumerates it in list order, so every enumeration order is covered.
\<close>

subsection \<open>Names, paths, exceptions\<close>

type_synonym HostName = string
type_synonym bytes = string

text \<open>
  The paths the module builds: the two roots of \<^verbatim>\<open>cmk.utils.paths\<close>, a
  piggybacked host folder (\<^verbatim>\<open>piggyback_dir / HOST\<close>), a piggybacked host source
  (\<^verbatim>\<open>piggyback_dir / HOST / SOURCE\<close>) and an entry of the source directory
  (\<^verbatim>\<open>piggyback_source_dir / NAME\<close>: a source state file or the writer's temporary file).
\<close>

datatype path =
    PiggybackDir
  | PiggybackSourceDir
  | PiggybackedHostFolder HostName
  | PiggybackedHostSource HostName HostName
  | SourceStateFile string

text \<open>\<^verbatim>\<open>Path.name\<close>: the last component.\<close>

fun path_name :: "path \<Rightarrow> string" where
  "path_name PiggybackDir = ''piggyback''"
| "path_name PiggybackSourceDir = ''piggyback_sources''"
| "path_name (PiggybackedHostFolder h) = h"
| "path_name (PiggybackedHostSource h s) = s"
| "path_name (SourceStateFile s) = s"

text \<open>
  Exceptions. An \<^verbatim>\<open>OSError\<close> carries its \<^verbatim>\<open>errno\<close> and the text \<^verbatim>\<open>str(exc)\<close>;
  \<^verbatim>\<open>FileNotFoundError\<close> is the \<^verbatim>\<open>OSError\<close> whose errno is \<^verbatim>\<open>ENOENT\<close>.
  \<^verbatim>\<open>OverflowError\<close> is what \<^verbatim>\<open>datetime.timedelta\<close> raises for a duration out of its range.
\<close>

datatype exn = KeyError | ValueError | ReError | OverflowError | OSError nat string

definition ENOENT :: nat where "ENOENT = 2"
definition ENOTEMPTY :: nat where "ENOTEMPTY = 39"

fun is_FileNotFoundError :: "exn \<Rightarrow> bool" where
  "is_FileNotFoundError (OSError n m) = (n = ENOENT)"
| "is_FileNotFoundError e = False"

text \<open>\<^verbatim>\<open>str.startswith\<close>.\<close>

definition startswith :: "string \<Rightarrow> string \<Rightarrow> bool" where
  "startswith s p = (take (length p) s = p)"

subsection \<open>The file system\<close>

record regfile =
  data :: bytes
  st_atime :: real
  st_mtime :: real

type_synonym directory = "(string \<times> regfile) list"

record filesystem =
  piggyback_dir :: "(HostName \<times> directory) list"
  piggyback_source_dir :: directory

type_synonym clock = "path \<Rightarrow> real"

text \<open>\<^verbatim>\<open>os.stat\<close> of a regular file; \<open>None\<close> is \<^verbatim>\<open>FileNotFoundError\<close>.\<close>

fun lookup_file :: "filesystem \<Rightarrow> path \<Rightarrow> regfile option" where
  "lookup_file fs (PiggybackedHostSource h s) =
     (case map_of (piggyback_dir fs) h of None \<Rightarrow> None | Some d \<Rightarrow> map_of d s)"
| "lookup_file fs (SourceStateFile s) = map_of (piggyback_source_dir fs) s"
| "lookup_file fs p = None"

text \<open>
  Creating or replacing a regular file. A payload file's folder is created when it is
  missing (\<^verbatim>\<open>store.save_bytes_to_file\<close> and \<^verbatim>\<open>store.makedirs\<close> make the parents).
\<close>

fun put_file :: "filesystem \<Rightarrow> path \<Rightarrow> regfile \<Rightarrow> filesystem" where
  "put_file fs (PiggybackedHostSource h s) f =
     fs\<lparr>piggyback_dir :=
          AList.update h
            (AList.update s f (case map_of (piggyback_dir fs) h of None \<Rightarrow> [] | Some d \<Rightarrow> d))
            (piggyback_dir fs)\<rparr>"
| "put_file fs (SourceStateFile s) f =
     fs\<lparr>piggyback_source_dir := AList.update s f (piggyback_source_dir fs)\<rparr>"
| "put_file fs p f = fs"

text \<open>Removing the directory entry of a regular file (no check that it exists).\<close>

fun drop_file :: "filesystem \<Rightarrow> path \<Rightarrow> filesystem" where
  "drop_file fs (PiggybackedHostSource h s) =
     (case map_of (piggyback_dir fs) h of
        None \<Rightarrow> fs
      | Some d \<Rightarrow> fs\<lparr>piggyback_dir := AList.update h (AList.delete s d) (piggyback_dir fs)\<rparr>)"
| "drop_file fs (SourceStateFile s) =
     fs\<lparr>piggyback_source_dir := AList.delete s (piggyback_source_dir fs)\<rparr>"
| "drop_file fs p = fs"

text \<open>\<^verbatim>\<open>Path.unlink\<close>.\<close>

definition unlink :: "filesystem \<Rightarrow> path \<Rightarrow> exn + filesystem" where
  "unlink fs p =
     (case lookup_file fs p of
        None \<Rightarrow> Inl (OSError ENOENT ''No such file or directory'')
      | Some f \<Rightarrow> Inr (drop_file fs p))"

text \<open>
  \<^verbatim>\<open>Path.rmdir\<close> of a piggybacked host folder: \<^verbatim>\<open>ENOENT\<close> when the folder is missing,
  \<^verbatim>\<open>ENOTEMPTY\<close> when it has any entry (hidden ones included).
\<close>

fun rmdir :: "filesystem \<Rightarrow> path \<Rightarrow> exn + filesystem" where
  "rmdir fs (PiggybackedHostFolder h) =
     (case map_of (piggyback_dir fs) h of
        None \<Rightarrow> Inl (OSError ENOENT ''No such file or directory'')
      | Some d \<Rightarrow>
          if d = [] then Inr (fs\<lparr>piggyback_dir := AList.delete h (piggyback_dir fs)\<rparr>)
          else Inl (OSError ENOTEMPTY ''Directory not empty''))"
| "rmdir fs p = Inl (OSError ENOENT ''No such file or directory'')"

text \<open>
  \<^verbatim>\<open>os.utime(path, (atime, mtime))\<close>, called with the two stamps that \<^verbatim>\<open>os.stat\<close> reported
  for another file (its one use in the module). \<^verbatim>\<open>os.stat\<close> reports a stamp as a float
  and \<^verbatim>\<open>os.utime\<close> converts the float back to seconds and nanoseconds, so the file does
  not receive the stamp of the other file but the image of that stamp under the round
  trip through a float. The round trip belongs to the interpreter and the C library; it
  is the parameter \<open>rt\<close>: \<open>rt t\<close> is the stamp that \<^verbatim>\<open>os.utime\<close> stores when it is given the
  float reported for the stamp \<open>t\<close>.
\<close>

type_synonym stamp_round_trip = "real \<Rightarrow> real"

definition utime ::
  "stamp_round_trip \<Rightarrow> filesystem \<Rightarrow> path \<Rightarrow> real \<times> real \<Rightarrow> exn + filesystem" where
  "utime rt fs p tms =
     (case lookup_file fs p of
        None \<Rightarrow> Inl (OSError ENOENT ''No such file or directory'')
      | Some f \<Rightarrow> Inr (put_file fs p (f\<lparr>st_atime := rt (fst tms), st_mtime := rt (snd tms)\<rparr>)))"

text \<open>\<^verbatim>\<open>os.rename(src, dst)\<close> between regular files: \<open>dst\<close> is replaced atomically.\<close>

definition rename :: "filesystem \<Rightarrow> path \<Rightarrow> path \<Rightarrow> exn + filesystem" where
  "rename fs a b =
     (case lookup_file fs a of
        None \<Rightarrow> Inl (OSError ENOENT ''No such file or directory'')
      | Some f \<Rightarrow> Inr (put_file (drop_file fs a) b f))"

text \<open>
  \<^verbatim>\<open>Path.iterdir\<close>; \<open>None\<close> is \<^verbatim>\<open>FileNotFoundError\<close>. The two roots always list (a
  missing root and an empty one are the same to every caller). The module never lists
  a payload or status path.
\<close>

fun iterdir :: "filesystem \<Rightarrow> path \<Rightarrow> path list option" where
  "iterdir fs PiggybackDir = Some (map (\<lambda>e. PiggybackedHostFolder (fst e)) (piggyback_dir fs))"
| "iterdir fs PiggybackSourceDir =
     Some (map (\<lambda>e. SourceStateFile (fst e)) (piggyback_source_dir fs))"
| "iterdir fs (PiggybackedHostFolder h) =
     (case map_of (piggyback_dir fs) h of
        None \<Rightarrow> None
      | Some d \<Rightarrow> Some (map (\<lambda>e. PiggybackedHostSource h (fst e)) d))"
| "iterdir fs p = None"

subsection \<open>Rendering\<close>

text \<open>Decimal digits of a natural number, as \<^verbatim>\<open>%d\<close> prints them.\<close>

fun str_nat :: "nat \<Rightarrow> string" where
  "str_nat n =
     (if n < 10 then [char_of (48 + n)] else str_nat (n div 10) @ [char_of (48 + n mod 10)])"

definition str_int :: "int \<Rightarrow> string" where
  "str_int i = (if i < 0 then ''-'' @ str_nat (nat (- i)) else str_nat (nat i))"

text \<open>\<^verbatim>\<open>%02d\<close> of a number in \<open>0..59\<close>.\<close>

definition str_02d :: "int \<Rightarrow> string" where
  "str_02d i = (if 0 \<le> i \<and> i < 10 then ''0'' @ str_int i else str_int i)"

text \<open>Python's \<^verbatim>\<open>round\<close> to an integer: halves go to the even neighbour.\<close>

definition py_round :: "real \<Rightarrow> int" where
  "py_round x =
     (let f = \<lfloor>x\<rfloor>; d = x - of_int f in
      if d < 1 / 2 then f else if 1 / 2 < d then f + 1 else if even f then f else f + 1)"

text \<open>
  \<^verbatim>\<open>str(datetime.timedelta(seconds=n))\<close> for an integer \<open>n\<close>: days and the seconds
  of the day are normalised by floor division; the constructor raises
  \<^verbatim>\<open>OverflowError\<close> when the day count has a magnitude above 999999999; the day count is
  printed only when it is not zero.
\<close>

definition str_timedelta :: "int \<Rightarrow> exn + string" where
  "str_timedelta n =
     (let days = n div 86400; secs = n mod 86400;
          mm = secs div 60; ss = secs mod 60;
          hh = mm div 60; mm' = mm mod 60;
          s = str_int hh @ '':'' @ str_02d mm' @ '':'' @ str_02d ss
      in if \<bar>days\<bar> > 999999999 then Inl OverflowError
         else if days \<noteq> 0
         then Inr (str_int days @ '' day'' @ (if \<bar>days\<bar> \<noteq> 1 then ''s'' else '''') @ '', '' @ s)
         else Inr s)"

definition render_time :: "real \<Rightarrow> exn + string" where
  "render_time v = str_timedelta (py_round v)"

subsection \<open>File info records\<close>

record PiggybackFileInfo =
  source :: HostName
  file_path :: path
  valid :: bool
  message :: string
  status :: int

text \<open>The dataclass constructor with its \<^verbatim>\<open>__post_init__\<close> check.\<close>

definition mk_PiggybackFileInfo ::
  "HostName \<Rightarrow> path \<Rightarrow> bool \<Rightarrow> string \<Rightarrow> int \<Rightarrow> exn + PiggybackFileInfo" where
  "mk_PiggybackFileInfo src p v msg st =
     (if msg = [] then Inl ValueError
      else Inr \<lparr>source = src, file_path = p, valid = v, message = msg, status = st\<rparr>)"

subsection \<open>Time settings\<close>

type_synonym PiggybackTimeSetting = "string option \<times> string \<times> int"
type_synonym PiggybackTimeSettings = "PiggybackTimeSetting list"
type_synonym TimeSettingsMap = "(string option \<times> string) \<rightharpoonup> int"

text \<open>
  \<^verbatim>\<open>re.match(pattern, string)\<close> is a parameter: \<open>Some b\<close> says whether the pattern matches
  at the start of the string, \<open>None\<close> is \<^verbatim>\<open>re.error\<close> (the pattern does not compile).
\<close>

type_synonym re_match = "string \<Rightarrow> string \<Rightarrow> bool option"

text \<open>\<^verbatim>\<open>dict.setdefault\<close>, for its effect on the dictionary.\<close>

definition setdefault :: "('k \<rightharpoonup> 'v) \<Rightarrow> 'k \<Rightarrow> 'v \<Rightarrow> ('k \<rightharpoonup> 'v)" where
  "setdefault m k v = (case m k of None \<Rightarrow> m(k \<mapsto> v) | Some w \<Rightarrow> m)"

text \<open>
  The loop of \<^verbatim>\<open>_TimeSettingsMap.__init__\<close>, with the dictionary built so far as
  accumulator.
\<close>

fun expand_settings ::
  "re_match \<Rightarrow> HostName list \<Rightarrow> HostName \<Rightarrow> PiggybackTimeSettings \<Rightarrow> TimeSettingsMap
     \<Rightarrow> exn + TimeSettingsMap" where
  "expand_settings re srcs tgt [] m = Inr m"
| "expand_settings re srcs tgt ((None, key, v) # rest) m =
     expand_settings re srcs tgt rest (setdefault m (None, key) v)"
| "expand_settings re srcs tgt ((Some expr, key, v) # rest) m =
     (if expr \<in> set srcs \<or> expr = tgt
      then expand_settings re srcs tgt rest (setdefault m (Some expr, key) v)
      else if startswith expr ''~''
      then (case re (drop 1 expr) tgt of
              None \<Rightarrow> Inl ReError
            | Some True \<Rightarrow> expand_settings re srcs tgt rest (setdefault m (Some tgt, key) v)
            | Some False \<Rightarrow> expand_settings re srcs tgt rest m)
      else expand_settings re srcs tgt rest m)"

definition TimeSettingsMap_init ::
  "re_match \<Rightarrow> HostName list \<Rightarrow> HostName \<Rightarrow> PiggybackTimeSettings \<Rightarrow> exn + TimeSettingsMap" where
  "TimeSettingsMap_init re source_hostnames piggybacked_hostname time_settings =
     expand_settings re source_hostnames piggybacked_hostname time_settings Map.empty"

definition TimeSettingsMap_match ::
  "TimeSettingsMap \<Rightarrow> string \<Rightarrow> HostName \<Rightarrow> HostName \<Rightarrow> exn + int" where
  "TimeSettingsMap_match m key source_hostname piggybacked_hostname =
     (case m (Some piggybacked_hostname, key) of
        Some v \<Rightarrow> Inr v
      | None \<Rightarrow>
          (case m (Some source_hostname, key) of
             Some v \<Rightarrow> Inr v
           | None \<Rightarrow> (case m (None, key) of Some v \<Rightarrow> Inr v | None \<Rightarrow> Inl KeyError)))"

definition max_cache_age :: "TimeSettingsMap \<Rightarrow> HostName \<Rightarrow> HostName \<Rightarrow> exn + int" where
  "max_cache_age m source_hostname piggybacked_hostname =
     TimeSettingsMap_match m ''max_cache_age'' source_hostname piggybacked_hostname"

definition validity_period :: "TimeSettingsMap \<Rightarrow> HostName \<Rightarrow> HostName \<Rightarrow> int option" where
  "validity_period m source_hostname piggybacked_hostname =
     (case TimeSettingsMap_match m ''validity_period'' source_hostname piggybacked_hostname of
        Inr v \<Rightarrow> Some v
      | Inl e \<Rightarrow> None)"

definition validity_state :: "TimeSettingsMap \<Rightarrow> HostName \<Rightarrow> HostName \<Rightarrow> int" where
  "validity_state m source_hostname piggybacked_hostname =
     (case TimeSettingsMap_match m ''validity_state'' source_hostname piggybacked_hostname of
        Inr v \<Rightarrow> v
      | Inl e \<Rightarrow> 0)"

subsection \<open>Folders and files\<close>

definition files_in :: "filesystem \<Rightarrow> path \<Rightarrow> path list" where
  "files_in fs p =
     (case iterdir fs p of
        None \<Rightarrow> []
      | Some ps \<Rightarrow> filter (\<lambda>f. \<not> startswith (path_name f) ''.'') ps)"

definition get_piggybacked_host_folders :: "filesystem \<Rightarrow> path list" where
  "get_piggybacked_host_folders fs = files_in fs PiggybackDir"

definition get_source_state_files :: "filesystem \<Rightarrow> path list" where
  "get_source_state_files fs = files_in fs PiggybackSourceDir"

definition get_source_hostnames :: "filesystem \<Rightarrow> HostName option \<Rightarrow> HostName list" where
  "get_source_hostnames fs piggybacked_hostname =
     (case piggybacked_hostname of
        None \<Rightarrow>
          concat (map (\<lambda>piggybacked_host_folder. map path_name (files_in fs piggybacked_host_folder))
                      (get_piggybacked_host_folders fs))
      | Some h \<Rightarrow> map path_name (files_in fs (PiggybackedHostFolder h)))"

definition get_source_status_file_path :: "HostName \<Rightarrow> path" where
  "get_source_status_file_path source_hostname = SourceStateFile source_hostname"

definition get_piggybacked_file_path :: "HostName \<Rightarrow> HostName \<Rightarrow> path" where
  "get_piggybacked_file_path source_hostname piggybacked_hostname =
     PiggybackedHostSource piggybacked_hostname source_hostname"

subsection \<open>File info inspector\<close>

text \<open>\<open>None\<close> is \<^verbatim>\<open>FileNotFoundError\<close>.\<close>

definition time_since_last_modification :: "clock \<Rightarrow> filesystem \<Rightarrow> path \<Rightarrow> real option" where
  "time_since_last_modification clk fs p =
     (case lookup_file fs p of None \<Rightarrow> None | Some f \<Rightarrow> Some (clk p - st_mtime f))"

definition validity_period_message :: "real \<Rightarrow> int option \<Rightarrow> exn + string" where
  "validity_period_message file_age vp =
     (case vp of
        None \<Rightarrow> Inr []
      | Some v \<Rightarrow>
          if real_of_int v - file_age \<le> 0 then Inr []
          else (case render_time (real_of_int v - file_age) of
                  Inl e \<Rightarrow> Inl e
                | Inr time_left \<Rightarrow> Inr ('' (still valid, '' @ time_left @ '' left)'')))"

text \<open>
  \<^verbatim>\<open>os.stat(...)[8]\<close> is the modification time in whole seconds, so the comparison is
  between the floors of the two time stamps.
\<close>

definition is_piggybacked_host_abandoned :: "filesystem \<Rightarrow> path \<Rightarrow> path \<Rightarrow> bool" where
  "is_piggybacked_host_abandoned fs status_file_path piggyback_file_path =
     (case lookup_file fs status_file_path of
        None \<Rightarrow> True
      | Some sf \<Rightarrow>
          (case lookup_file fs piggyback_file_path of
             None \<Rightarrow> True
           | Some pf \<Rightarrow> \<lfloor>st_mtime sf\<rfloor> > \<lfloor>st_mtime pf\<rfloor>))"

definition get_piggyback_processed_file_info ::
  "clock \<Rightarrow> filesystem \<Rightarrow> HostName \<Rightarrow> HostName \<Rightarrow> path \<Rightarrow> TimeSettingsMap
     \<Rightarrow> exn + PiggybackFileInfo" where
  "get_piggyback_processed_file_info clk fs source_hostname piggybacked_hostname
       piggyback_file_path settings =
     (case time_since_last_modification clk fs piggyback_file_path of
        None \<Rightarrow>
          mk_PiggybackFileInfo source_hostname piggyback_file_path False
            ''Piggyback file is missing'' 0
      | Some file_age \<Rightarrow>
          (case max_cache_age settings source_hostname piggybacked_hostname of
             Inl e \<Rightarrow> Inl e
           | Inr allowed \<Rightarrow>
               if file_age > real_of_int allowed
               then (case render_time file_age of
                       Inl e \<Rightarrow> Inl e
                     | Inr age \<Rightarrow>
                         (case render_time (real_of_int allowed) of
                            Inl e \<Rightarrow> Inl e
                          | Inr allowed_age \<Rightarrow>
                              mk_PiggybackFileInfo source_hostname piggyback_file_path False
                                (''Piggyback file too old (age: '' @ age @ '', allowed: ''
                                   @ allowed_age @ '')'') 0))
               else
                 let vp = validity_period settings source_hostname piggybacked_hostname;
                     vs = validity_state settings source_hostname piggybacked_hostname;
                     status_file_path = get_source_status_file_path source_hostname
                 in if is_piggybacked_host_abandoned fs status_file_path piggyback_file_path
                    then
                      (case validity_period_message file_age vp of
                         Inl e \<Rightarrow> Inl e
                       | Inr valid_msg \<Rightarrow>
                           mk_PiggybackFileInfo source_hostname piggyback_file_path
                             (valid_msg \<noteq> [])
                             (''Piggyback data not updated by source '' @ [CHR 39]
                                @ source_hostname @ [CHR 39] @ valid_msg)
                             (if valid_msg \<noteq> [] then vs else 0))
                    else mk_PiggybackFileInfo source_hostname piggyback_file_path True
                           (''Successfully processed from source '' @ [CHR 39]
                              @ source_hostname @ [CHR 39]) 0))"

text \<open>The list comprehension of \<^verbatim>\<open>_get_piggyback_processed_file_infos\<close>.\<close>

fun file_infos_of ::
  "clock \<Rightarrow> filesystem \<Rightarrow> HostName \<Rightarrow> TimeSettingsMap \<Rightarrow> HostName list
     \<Rightarrow> exn + PiggybackFileInfo list" where
  "file_infos_of clk fs piggybacked_hostname settings [] = Inr []"
| "file_infos_of clk fs piggybacked_hostname settings (source_hostname # rest) =
     (case get_piggyback_processed_file_info clk fs source_hostname piggybacked_hostname
             (get_piggybacked_file_path source_hostname piggybacked_hostname) settings of
        Inl e \<Rightarrow> Inl e
      | Inr fi \<Rightarrow>
          (case file_infos_of clk fs piggybacked_hostname settings rest of
             Inl e \<Rightarrow> Inl e
           | Inr fis \<Rightarrow> Inr (fi # fis)))"

definition get_piggyback_processed_file_infos ::
  "re_match \<Rightarrow> clock \<Rightarrow> filesystem \<Rightarrow> HostName \<Rightarrow> PiggybackTimeSettings
     \<Rightarrow> exn + PiggybackFileInfo list" where
  "get_piggyback_processed_file_infos re clk fs piggybacked_hostname time_settings =
     (let source_hostnames = get_source_hostnames fs (Some piggybacked_hostname)
      in case TimeSettingsMap_init re source_hostnames piggybacked_hostname time_settings of
           Inl e \<Rightarrow> Inl e
         | Inr expanded_time_settings \<Rightarrow>
             file_infos_of clk fs piggybacked_hostname expanded_time_settings source_hostnames)"

subsection \<open>Raw data accessor\<close>

record PiggybackRawDataInfo =
  info :: PiggybackFileInfo
  raw_data :: bytes

text \<open>
  \<^verbatim>\<open>store.load_bytes_from_file\<close> belongs to \<^verbatim>\<open>cmk.utils.store\<close>; the accessor takes
  it as the parameter \<open>load\<close>, which returns the bytes read or the exception raised.
\<close>

type_synonym load_bytes = "path \<Rightarrow> exn + bytes"

text \<open>The body of the accessor's loop: the read and its \<^verbatim>\<open>except OSError\<close> handler.\<close>

definition read_file_info :: "load_bytes \<Rightarrow> PiggybackFileInfo \<Rightarrow> exn + PiggybackRawDataInfo" where
  "read_file_info load file_info =
     (case load (file_path file_info) of
        Inr b \<Rightarrow> Inr \<lparr>info = file_info, raw_data = b\<rparr>
      | Inl (OSError n txt) \<Rightarrow>
          (case mk_PiggybackFileInfo (source file_info) (file_path file_info) False
                  (''Cannot read piggyback raw data from source '' @ [CHR 39]
                     @ source file_info @ [CHR 39] @ '': '' @ txt) 0 of
             Inl e \<Rightarrow> Inl e
           | Inr fi \<Rightarrow> Inr \<lparr>info = fi, raw_data = []\<rparr>)
      | Inl e \<Rightarrow> Inl e)"

fun read_file_infos :: "load_bytes \<Rightarrow> PiggybackFileInfo list \<Rightarrow> exn + PiggybackRawDataInfo list" where
  "read_file_infos load [] = Inr []"
| "read_file_infos load (file_info # rest) =
     (case read_file_info load file_info of
        Inl e \<Rightarrow> Inl e
      | Inr piggyback_raw_data \<Rightarrow>
          (case read_file_infos load rest of
             Inl e \<Rightarrow> Inl e
           | Inr piggyback_data \<Rightarrow> Inr (piggyback_raw_data # piggyback_data)))"

definition get_piggyback_raw_data ::
  "load_bytes \<Rightarrow> re_match \<Rightarrow> clock \<Rightarrow> filesystem \<Rightarrow> HostName option \<Rightarrow> PiggybackTimeSettings
     \<Rightarrow> exn + PiggybackRawDataInfo list" where
  "get_piggyback_raw_data load re clk fs piggybacked_hostname time_settings =
     (case piggybacked_hostname of
        None \<Rightarrow> Inr []
      | Some h \<Rightarrow>
          if h = [] then Inr []
          else (case get_piggyback_processed_file_infos re clk fs h time_settings of
                  Inl e \<Rightarrow> Inl e
                | Inr piggyback_file_infos \<Rightarrow>
                    if piggyback_file_infos = [] then Inr []
                    else read_file_infos load piggyback_file_infos))"

subsection \<open>Status file writer\<close>

text \<open>\<^verbatim>\<open>sep.join(lines)\<close> on bytes.\<close>

fun bytes_join :: "bytes \<Rightarrow> bytes list \<Rightarrow> bytes" where
  "bytes_join sep [] = []"
| "bytes_join sep [x] = x"
| "bytes_join sep (x # y # ys) = x @ sep @ bytes_join sep (y # ys)"

text \<open>
  Modelled from the spec: \<^verbatim>\<open>store.save_bytes_to_file\<close> of \<^verbatim>\<open>cmk.utils.store\<close> is not
  part of the sources. The spec has the writer "overwrite its payload file": the file
  holds exactly the given bytes afterwards, its time stamps are the time of the write.
\<close>

definition save_bytes_to_file :: "clock \<Rightarrow> filesystem \<Rightarrow> path \<Rightarrow> bytes \<Rightarrow> filesystem" where
  "save_bytes_to_file clk fs p b = put_file fs p \<lparr>data = b, st_atime = clk p, st_mtime = clk p\<rparr>"

definition remove_piggyback_file :: "filesystem \<Rightarrow> path \<Rightarrow> exn + (bool \<times> filesystem)" where
  "remove_piggyback_file fs piggyback_file_path =
     (case unlink fs piggyback_file_path of
        Inr fs' \<Rightarrow> Inr (True, fs')
      | Inl e \<Rightarrow> if is_FileNotFoundError e then Inr (False, fs) else Inl e)"

definition remove_source_status_file :: "filesystem \<Rightarrow> HostName \<Rightarrow> exn + (bool \<times> filesystem)" where
  "remove_source_status_file fs source_hostname =
     remove_piggyback_file fs (get_source_status_file_path source_hostname)"

text \<open>
  A path in the directory of \<open>p\<close> (\<^verbatim>\<open>p.parent / name\<close>). The parent of the two roots
  lies outside the storage layout; the module never asks for it.
\<close>

fun in_parent_of :: "path \<Rightarrow> string \<Rightarrow> path" where
  "in_parent_of (SourceStateFile s) n = SourceStateFile n"
| "in_parent_of (PiggybackedHostSource h s) n = PiggybackedHostSource h n"
| "in_parent_of (PiggybackedHostFolder h) n = PiggybackedHostFolder n"
| "in_parent_of p n = p"

text \<open>The loop over the payload paths in \<^verbatim>\<open>_store_status_file_of\<close>.\<close>

fun utime_all ::
  "stamp_round_trip \<Rightarrow> filesystem \<Rightarrow> path list \<Rightarrow> real \<times> real \<Rightarrow> exn + filesystem" where
  "utime_all rt fs [] tms = Inr fs"
| "utime_all rt fs (piggyback_file_path # rest) tms =
     (case utime rt fs piggyback_file_path tms of
        Inr fs' \<Rightarrow> utime_all rt fs' rest tms
      | Inl e \<Rightarrow> if is_FileNotFoundError e then utime_all rt fs rest tms else Inl e)"

text \<open>
  \<^verbatim>\<open>tempfile.NamedTemporaryFile\<close> creates an empty file named by the given prefix and a
  random suffix; \<open>suffix\<close> is the one it settled on. The state before the final rename
  is \<open>status_file_prepared\<close>.
\<close>

definition tmp_path_of :: "path \<Rightarrow> string \<Rightarrow> path" where
  "tmp_path_of status_file_path suffix =
     in_parent_of status_file_path (''.'' @ path_name status_file_path @ ''.new'' @ suffix)"

definition status_file_prepared ::
  "stamp_round_trip \<Rightarrow> clock \<Rightarrow> string \<Rightarrow> path \<Rightarrow> path list \<Rightarrow> filesystem
     \<Rightarrow> exn + filesystem" where
  "status_file_prepared rt clk suffix status_file_path piggyback_file_paths fs =
     (let tmp_path = tmp_path_of status_file_path suffix;
          fs1 = put_file fs tmp_path
                  \<lparr>data = [], st_atime = clk tmp_path, st_mtime = clk tmp_path\<rparr>
      in case lookup_file fs1 tmp_path of
           None \<Rightarrow> Inl (OSError ENOENT ''No such file or directory'')
         | Some tmp_stats \<Rightarrow>
             utime_all rt fs1 piggyback_file_paths (st_atime tmp_stats, st_mtime tmp_stats))"

definition store_status_file_of ::
  "stamp_round_trip \<Rightarrow> clock \<Rightarrow> string \<Rightarrow> path \<Rightarrow> path list \<Rightarrow> filesystem
     \<Rightarrow> exn + filesystem" where
  "store_status_file_of rt clk suffix status_file_path piggyback_file_paths fs =
     (case status_file_prepared rt clk suffix status_file_path piggyback_file_paths fs of
        Inl e \<Rightarrow> Inl e
      | Inr fs2 \<Rightarrow> rename fs2 (tmp_path_of status_file_path suffix) status_file_path)"

text \<open>
  The loop over \<^verbatim>\<open>piggybacked_raw_data.items()\<close>; the dictionary is the list of its
  items in iteration order.
\<close>

fun store_payloads ::
  "clock \<Rightarrow> HostName \<Rightarrow> (HostName \<times> bytes list) list \<Rightarrow> filesystem \<Rightarrow> path list
     \<Rightarrow> filesystem \<times> path list" where
  "store_payloads clk source_hostname [] fs piggyback_file_paths = (fs, piggyback_file_paths)"
| "store_payloads clk source_hostname ((piggybacked_hostname, lines) # rest) fs
       piggyback_file_paths =
     (let piggyback_file_path = get_piggybacked_file_path source_hostname piggybacked_hostname;
          fs' = save_bytes_to_file clk fs piggyback_file_path
                  (bytes_join [CHR 10] lines @ [CHR 10])
      in store_payloads clk source_hostname rest fs'
           (piggyback_file_paths @ [piggyback_file_path]))"

definition store_piggyback_raw_data ::
  "stamp_round_trip \<Rightarrow> clock \<Rightarrow> string \<Rightarrow> HostName \<Rightarrow> (HostName \<times> bytes list) list
     \<Rightarrow> filesystem \<Rightarrow> exn + filesystem" where
  "store_piggyback_raw_data rt clk suffix source_hostname piggybacked_raw_data fs =
     (if piggybacked_raw_data = []
      then (case remove_source_status_file fs source_hostname of
              Inl e \<Rightarrow> Inl e
            | Inr r \<Rightarrow> Inr (snd r))
      else
        let stored = store_payloads clk source_hostname piggybacked_raw_data fs [];
            status_file_path = get_source_status_file_path source_hostname
        in store_status_file_of rt clk suffix status_file_path (snd stored) (fst stored))"

subsection \<open>Cleanup sweeper\<close>

type_synonym hosts_settings = "(path \<times> path list \<times> TimeSettingsMap) list"

fun hosts_settings_of ::
  "re_match \<Rightarrow> filesystem \<Rightarrow> PiggybackTimeSettings \<Rightarrow> path list \<Rightarrow> exn + hosts_settings" where
  "hosts_settings_of re fs time_settings [] = Inr []"
| "hosts_settings_of re fs time_settings (piggybacked_host_folder # rest) =
     (let source_hosts = files_in fs piggybacked_host_folder
      in case TimeSettingsMap_init re (map path_name source_hosts)
                (path_name piggybacked_host_folder) time_settings of
           Inl e \<Rightarrow> Inl e
         | Inr time_settings_map \<Rightarrow>
             (case hosts_settings_of re fs time_settings rest of
                Inl e \<Rightarrow> Inl e
              | Inr hs \<Rightarrow> Inr ((piggybacked_host_folder, source_hosts, time_settings_map) # hs)))"

definition get_piggybacked_hosts_settings ::
  "re_match \<Rightarrow> filesystem \<Rightarrow> PiggybackTimeSettings \<Rightarrow> exn + hosts_settings" where
  "get_piggybacked_hosts_settings re fs time_settings =
     hosts_settings_of re fs time_settings (get_piggybacked_host_folders fs)"

text \<open>
  First loop of \<^verbatim>\<open>_cleanup_old_source_status_files\<close>: the inner loop over the sources
  of one folder, then the outer loop over the folders, with the dictionary
  \<^verbatim>\<open>max_cache_age_by_sources\<close> as accumulator.
\<close>

fun max_cache_age_of_folder ::
  "TimeSettingsMap \<Rightarrow> HostName \<Rightarrow> path list \<Rightarrow> (string \<rightharpoonup> int) \<Rightarrow> exn + (string \<rightharpoonup> int)" where
  "max_cache_age_of_folder ts folder_name [] acc = Inr acc"
| "max_cache_age_of_folder ts folder_name (source_host # rest) acc =
     (case max_cache_age ts (path_name source_host) folder_name of
        Inl e \<Rightarrow> Inl e
      | Inr mca \<Rightarrow>
          (case acc (path_name source_host) of
             None \<Rightarrow> max_cache_age_of_folder ts folder_name rest (acc(path_name source_host \<mapsto> mca))
           | Some max_cache_age_of_source \<Rightarrow>
               if max_cache_age_of_source \<le> mca
               then max_cache_age_of_folder ts folder_name rest (acc(path_name source_host \<mapsto> mca))
               else max_cache_age_of_folder ts folder_name rest acc))"

fun max_cache_age_by_sources :: "hosts_settings \<Rightarrow> (string \<rightharpoonup> int) \<Rightarrow> exn + (string \<rightharpoonup> int)" where
  "max_cache_age_by_sources [] acc = Inr acc"
| "max_cache_age_by_sources ((piggybacked_host_folder, source_hosts, ts) # rest) acc =
     (case max_cache_age_of_folder ts (path_name piggybacked_host_folder) source_hosts acc of
        Inl e \<Rightarrow> Inl e
      | Inr acc' \<Rightarrow> max_cache_age_by_sources rest acc')"

text \<open>
  Second loop of \<^verbatim>\<open>_cleanup_old_source_status_files\<close>, over the source state files. The
  calls of the logger are left out, here as everywhere. The one before the removal
  renders the age and the retained age for its entry; the pass is modelled for
  durations that \<^verbatim>\<open>datetime.timedelta\<close> can hold (a magnitude of at most 999999999 days).
\<close>

fun remove_old_status_files ::
  "clock \<Rightarrow> (string \<rightharpoonup> int) \<Rightarrow> path list \<Rightarrow> filesystem \<Rightarrow> exn + filesystem" where
  "remove_old_status_files clk ages [] fs = Inr fs"
| "remove_old_status_files clk ages (source_state_file # rest) fs =
     (case time_since_last_modification clk fs source_state_file of
        None \<Rightarrow> remove_old_status_files clk ages rest fs
      | Some file_age \<Rightarrow>
          (case ages (path_name source_state_file) of
             None \<Rightarrow> remove_old_status_files clk ages rest fs
           | Some max_cache_age_of_source \<Rightarrow>
               if file_age > real_of_int max_cache_age_of_source
               then (case remove_piggyback_file fs source_state_file of
                       Inl e \<Rightarrow> Inl e
                     | Inr r \<Rightarrow> remove_old_status_files clk ages rest (snd r))
               else remove_old_status_files clk ages rest fs))"

definition cleanup_old_source_status_files ::
  "clock \<Rightarrow> hosts_settings \<Rightarrow> filesystem \<Rightarrow> exn + filesystem" where
  "cleanup_old_source_status_files clk piggybacked_hosts_settings fs =
     (case max_cache_age_by_sources piggybacked_hosts_settings Map.empty of
        Inl e \<Rightarrow> Inl e
      | Inr ages \<Rightarrow> remove_old_status_files clk ages (get_source_state_files fs) fs)"

text \<open>
  \<^verbatim>\<open>_cleanup_old_piggybacked_files\<close>: the inner loop over the sources of one folder,
  then the outer loop with the removal of the folder.
\<close>

fun remove_old_sources ::
  "clock \<Rightarrow> TimeSettingsMap \<Rightarrow> HostName \<Rightarrow> path list \<Rightarrow> filesystem \<Rightarrow> exn + filesystem" where
  "remove_old_sources clk ts dst [] fs = Inr fs"
| "remove_old_sources clk ts dst (piggybacked_host_source # rest) fs =
     (case time_since_last_modification clk fs piggybacked_host_source of
        None \<Rightarrow> remove_old_sources clk ts dst rest fs
      | Some file_age \<Rightarrow>
          (case max_cache_age ts (path_name piggybacked_host_source) dst of
             Inl e \<Rightarrow> Inl e
           | Inr mca \<Rightarrow>
               let vp = (case validity_period ts (path_name piggybacked_host_source) dst of
                           None \<Rightarrow> 0
                         | Some v \<Rightarrow> v)
               in if file_age \<le> real_of_int mca \<or> file_age \<le> real_of_int vp
                  then remove_old_sources clk ts dst rest fs
                  else (case remove_piggyback_file fs piggybacked_host_source of
                          Inl e \<Rightarrow> Inl e
                        | Inr r \<Rightarrow> remove_old_sources clk ts dst rest (snd r))))"

fun cleanup_old_piggybacked_files ::
  "clock \<Rightarrow> hosts_settings \<Rightarrow> filesystem \<Rightarrow> exn + filesystem" where
  "cleanup_old_piggybacked_files clk [] fs = Inr fs"
| "cleanup_old_piggybacked_files clk ((piggybacked_host_folder, source_hosts, ts) # rest) fs =
     (case remove_old_sources clk ts (path_name piggybacked_host_folder) source_hosts fs of
        Inl e \<Rightarrow> Inl e
      | Inr fs1 \<Rightarrow>
          (case rmdir fs1 piggybacked_host_folder of
             Inr fs2 \<Rightarrow> cleanup_old_piggybacked_files clk rest fs2
           | Inl (OSError n txt) \<Rightarrow>
               if n = ENOTEMPTY then cleanup_old_piggybacked_files clk rest fs1
               else Inl (OSError n txt)
           | Inl e \<Rightarrow> Inl e))"

definition cleanup_piggyback_files ::
  "re_match \<Rightarrow> clock \<Rightarrow> PiggybackTimeSettings \<Rightarrow> filesystem \<Rightarrow> exn + filesystem" where
  "cleanup_piggyback_files re clk time_settings fs =
     (case get_piggybacked_hosts_settings re fs time_settings of
        Inl e \<Rightarrow> Inl e
      | Inr piggybacked_hosts_settings \<Rightarrow>
          (case cleanup_old_source_status_files clk piggybacked_hosts_settings fs of
             Inl e \<Rightarrow> Inl e
           | Inr fs1 \<Rightarrow> cleanup_old_piggybacked_files clk piggybacked_hosts_settings fs1))"

subsection \<open>Predicates used in the statements\<close>

text \<open>
  What the accessor returns for one file info: the info with the bytes read, or, when
  the read raises an \<^verbatim>\<open>OSError\<close>, the degraded info with no bytes.
\<close>

definition entry_of :: "load_bytes \<Rightarrow> PiggybackFileInfo \<Rightarrow> PiggybackRawDataInfo \<Rightarrow> bool" where
  "entry_of load fi d =
     (case load (file_path fi) of
        Inr b \<Rightarrow> d = \<lparr>info = fi, raw_data = b\<rparr>
      | Inl e \<Rightarrow>
          (\<exists>n txt. e = OSError n txt
             \<and> info d = \<lparr>source = source fi, file_path = file_path fi, valid = False,
                         message = ''Cannot read piggyback raw data from source '' @ [CHR 39]
                                     @ source fi @ [CHR 39] @ '': '' @ txt,
                         status = 0\<rparr>
             \<and> raw_data d = []))"

text \<open>
  The scope a rule registers under, in the words of the specification (resolution order
  of the Time-Settings Resolver): the literal scope when the expression is absent, a
  known source name or the target name; else the target's scope when the expression
  begins with the regex marker and the remainder matches the target; else none (the
  rule is ignored). \<open>registers\<close> says that a rule registers under a given scope and key.
\<close>

definition rule_scope ::
  "re_match \<Rightarrow> HostName list \<Rightarrow> HostName \<Rightarrow> string option \<Rightarrow> string option option" where
  "rule_scope re srcs tgt expr =
     (case expr of
        None \<Rightarrow> Some None
      | Some e \<Rightarrow>
          if e \<in> set srcs \<or> e = tgt then Some (Some e)
          else if startswith e ''~'' \<and> re (drop 1 e) tgt = Some True then Some (Some tgt)
          else None)"

definition registers :: 
  "re_match \<Rightarrow> HostName list \<Rightarrow> HostName \<Rightarrow> string option \<Rightarrow> string \<Rightarrow> PiggybackTimeSetting \<Rightarrow> bool" where
  "registers re srcs tgt sc key rule =
     (fst (snd rule) = key \<and> rule_scope re srcs tgt (fst rule) = Some sc)"

text \<open>
  An instance of the round trip through a float, for the stamps between \<open>2 ^ 30\<close> and
  \<open>2 ^ 31\<close> seconds (the years 2004 to 2038) on CPython: \<^verbatim>\<open>os.stat\<close> reports the stamp as
  a double, which has 22 fractional bits in that range (the nearest one, a tie going to
  the even neighbour), and \<^verbatim>\<open>os.utime\<close> stores the whole nanoseconds of that double.
\<close>

definition double_round_trip :: stamp_round_trip where
  "double_round_trip t =
     real_of_int \<lfloor>real_of_int (py_round (t * 2 ^ 22)) / 2 ^ 22 * 10 ^ 9\<rfloor> / 10 ^ 9"

text \<open>A file with the given time stamps.\<close>

definition retimed :: "real \<times> real \<Rightarrow> regfile \<Rightarrow> regfile" where
  "retimed tms f = f\<lparr>st_atime := fst tms, st_mtime := snd tms\<rparr>"

text \<open>
  The lines of a payload: the pieces before each newline byte (what follows the last
  newline is dropped). Used to show that the stored bytes determine the lines.
\<close>

fun split_nl :: "bytes \<Rightarrow> bytes \<Rightarrow> bytes list" where
  "split_nl cur [] = []"
| "split_nl cur (c # cs) =
     (if c = CHR 10 then rev cur # split_nl [] cs else split_nl (c # cur) cs)"




text \<open>
  A payload file is outdated for a (source, target) pair when it exists and its age
  strictly exceeds both the resolved \<open>max_cache_age\<close> and the resolved
  \<open>validity_period\<close>, an unresolved \<open>validity_period\<close> counting as 0.
\<close>

definition outdated :: "clock \<Rightarrow> TimeSettingsMap \<Rightarrow> HostName \<Rightarrow> filesystem \<Rightarrow> path \<Rightarrow> bool" where
  "outdated clk ts dst fs q =
     (case lookup_file fs q of
        None \<Rightarrow> False
      | Some f \<Rightarrow>
          (case max_cache_age ts (path_name q) dst of
             Inl e \<Rightarrow> False
           | Inr mca \<Rightarrow>
               clk q - st_mtime f > real_of_int mca
               \<and> clk q - st_mtime f
                   > real_of_int (case validity_period ts (path_name q) dst of
                                    None \<Rightarrow> 0
                                  | Some v \<Rightarrow> v)))"

section \<open>Properties\<close>

subsection \<open>File info inspector\<close>

lemma validity_period_message_nonempty:
  "validity_period_message age vp = Inr msg \<Longrightarrow>
   msg \<noteq> [] \<longleftrightarrow> (\<exists>P. vp = Some P \<and> real_of_int P - age > 0)"
  by (auto simp: validity_period_message_def split: option.splits if_splits sum.splits)

lemma max_cache_age_error: "max_cache_age m s t = Inl e \<Longrightarrow> e = KeyError"
  by (auto simp: max_cache_age_def TimeSettingsMap_match_def split: option.splits)

lemma render_time_error: "render_time v = Inl e \<Longrightarrow> e = OverflowError"
  by (auto simp: render_time_def str_timedelta_def Let_def split: if_splits)

lemma validity_period_message_error:
  "validity_period_message age vp = Inl e \<Longrightarrow>
   e = OverflowError
   \<and> (\<exists>P. vp = Some P \<and> real_of_int P - age > 0
          \<and> render_time (real_of_int P - age) = Inl OverflowError)"
  using render_time_error
  by (auto simp: validity_period_message_def split: option.splits if_splits sum.splits)

text \<open>
  C1 (as amended). The record the inspector returns is: invalid with status 0 and the
  message "Piggyback file is missing" when the payload file is missing; invalid with
  status 0 when the file's age exceeds the resolved \<open>max_cache_age\<close>, whatever the
  status file; when the pair is abandoned (status file missing, or its modification
  time in whole seconds strictly greater than the payload's in whole seconds), valid
  exactly when the resolved \<open>validity_period\<close> minus the age is strictly positive, with
  status the resolved \<open>validity_state\<close> when valid and 0 when not; valid with status 0
  when the pair is not abandoned. The inspector raises instead of returning a record
  only for an existing payload file: the \<^verbatim>\<open>KeyError\<close> of a \<open>max_cache_age\<close> that resolves
  nowhere, or the \<^verbatim>\<open>OverflowError\<close> of a duration that its message renders (the age or
  the allowed age of a file that is too old, the time left of an abandoned pair that is
  still valid).
\<close>

theorem file_info_cases:
  "case get_piggyback_processed_file_info clk fs src tgt p m of
     Inl e \<Rightarrow>
       (\<exists>f. lookup_file fs p = Some f
          \<and> (case max_cache_age m src tgt of
               Inl e' \<Rightarrow> e = KeyError \<and> e' = KeyError
             | Inr allowed \<Rightarrow>
                 e = OverflowError
                 \<and> (if clk p - st_mtime f > real_of_int allowed
                    then render_time (clk p - st_mtime f) = Inl OverflowError
                         \<or> render_time (real_of_int allowed) = Inl OverflowError
                    else (case lookup_file fs (SourceStateFile src) of
                            None \<Rightarrow> True
                          | Some sf \<Rightarrow> \<lfloor>st_mtime sf\<rfloor> > \<lfloor>st_mtime f\<rfloor>)
                         \<and> (\<exists>P. validity_period m src tgt = Some P
                                \<and> real_of_int P - (clk p - st_mtime f) > 0
                                \<and> render_time (real_of_int P - (clk p - st_mtime f))
                                    = Inl OverflowError))))
   | Inr fi \<Rightarrow>
      (case lookup_file fs p of
         None \<Rightarrow> \<not> valid fi \<and> status fi = 0 \<and> message fi = ''Piggyback file is missing''
       | Some f \<Rightarrow>
          (\<exists>allowed. max_cache_age m src tgt = Inr allowed \<and>
            (if clk p - st_mtime f > real_of_int allowed
             then \<not> valid fi \<and> status fi = 0
             else if (case lookup_file fs (SourceStateFile src) of
                        None \<Rightarrow> True
                      | Some sf \<Rightarrow> \<lfloor>st_mtime sf\<rfloor> > \<lfloor>st_mtime f\<rfloor>)
             then (valid fi \<longleftrightarrow>
                     (\<exists>P. validity_period m src tgt = Some P
                          \<and> real_of_int P - (clk p - st_mtime f) > 0))
                  \<and> status fi = (if valid fi then validity_state m src tgt else 0)
             else valid fi \<and> status fi = 0)))"
proof (cases "lookup_file fs p")
  case None
  then show ?thesis
    by (simp add: get_piggyback_processed_file_info_def time_since_last_modification_def
        mk_PiggybackFileInfo_def)
next
  case (Some f)
  let ?age = "clk p - st_mtime f"
  let ?abandoned = "case lookup_file fs (SourceStateFile src) of
                      None \<Rightarrow> True
                    | Some sf \<Rightarrow> \<lfloor>st_mtime sf\<rfloor> > \<lfloor>st_mtime f\<rfloor>"
  have ab: "is_piggybacked_host_abandoned fs (get_source_status_file_path src) p = ?abandoned"
    using Some
    by (simp add: is_piggybacked_host_abandoned_def get_source_status_file_path_def
        split: option.splits)
  show ?thesis
  proof (cases "max_cache_age m src tgt")
    case (Inl e)
    with Some max_cache_age_error[OF Inl] show ?thesis
      by (simp add: get_piggyback_processed_file_info_def time_since_last_modification_def)
  next
    case (Inr allowed)
    show ?thesis
    proof (cases "?age > real_of_int allowed")
      case True
      show ?thesis
      proof (cases "render_time ?age")
        case a: (Inl e)
        with Some Inr True render_time_error[OF a] show ?thesis
          by (simp add: get_piggyback_processed_file_info_def
              time_since_last_modification_def)
      next
        case a: (Inr age_msg)
        show ?thesis
        proof (cases "render_time (real_of_int allowed)")
          case b: (Inl e)
          with Some Inr True a render_time_error[OF b] show ?thesis
            by (simp add: get_piggyback_processed_file_info_def
                time_since_last_modification_def)
        next
          case b: (Inr allowed_msg)
          with Some Inr True a show ?thesis
            by (simp add: get_piggyback_processed_file_info_def
                time_since_last_modification_def mk_PiggybackFileInfo_def)
        qed
      qed
    next
      case False
      show ?thesis
      proof (cases ?abandoned)
        case na: False
        with Some Inr False ab show ?thesis
          by (simp add: get_piggyback_processed_file_info_def
              time_since_last_modification_def mk_PiggybackFileInfo_def Let_def)
      next
        case ya: True
        show ?thesis
        proof (cases "validity_period_message ?age (validity_period m src tgt)")
          case v: (Inl e)
          from validity_period_message_error[OF v] Some Inr False ab ya v show ?thesis
            by (simp add: get_piggyback_processed_file_info_def
                time_since_last_modification_def Let_def)
        next
          case v: (Inr valid_msg)
          from validity_period_message_nonempty[OF v] Some Inr False ab ya v show ?thesis
            by (simp add: get_piggyback_processed_file_info_def
                time_since_last_modification_def mk_PiggybackFileInfo_def Let_def)
        qed
      qed
    qed
  qed
qed

text \<open>
  An abandoned pair (no status file) of age 100 with \<open>max_cache_age\<close> 3600,
  \<open>validity_period\<close> 600 and \<open>validity_state\<close> 1: valid, status 1.
\<close>

theorem file_info_cases_witness:
  "map_sum id (\<lambda>fi. (valid fi, status fi))
     (get_piggyback_processed_file_info (\<lambda>p. 100)
        \<lparr>piggyback_dir = [(''tgt'', [(''src'', \<lparr>data = [], st_atime = 0, st_mtime = 0\<rparr>)])],
         piggyback_source_dir = []\<rparr>
        ''src'' ''tgt'' (PiggybackedHostSource ''tgt'' ''src'')
        [(None, ''max_cache_age'') \<mapsto> 3600, (None, ''validity_period'') \<mapsto> 600,
         (None, ''validity_state'') \<mapsto> 1]) = Inr (True, 1)"
proof -
  have r: "\<exists>msg. render_time 500 = Inr msg"
    by (simp add: render_time_def str_timedelta_def py_round_def Let_def)
  from file_info_cases [where clk = "\<lambda>p. 100" and fs =
        "\<lparr>piggyback_dir = [(''tgt'', [(''src'', \<lparr>data = [], st_atime = 0, st_mtime = 0\<rparr>)])],
         piggyback_source_dir = []\<rparr>"
        and src = "''src''" and tgt = "''tgt''" and p = "PiggybackedHostSource ''tgt'' ''src''"
        and m = "[(None, ''max_cache_age'') \<mapsto> 3600, (None, ''validity_period'') \<mapsto> 600,
         (None, ''validity_state'') \<mapsto> 1]"] r
  show ?thesis
    by (auto simp: max_cache_age_def validity_period_def validity_state_def
        TimeSettingsMap_match_def split: sum.splits)
qed

text \<open>
  The claim as written compares the two modification times themselves. A payload
  written at 10.2 and a status file written at 10.7, read at 11 with \<open>max_cache_age\<close>
  100 and no \<open>validity_period\<close>: the status file is strictly newer, so the claim has the
  record invalid; the code compares whole seconds (10 against 10) and returns a valid
  record.
\<close>

theorem file_info_subsecond_counterexample:
  "st_mtime \<lparr>data = [], st_atime = 10.7, st_mtime = 10.7\<rparr>
     > st_mtime \<lparr>data = [], st_atime = 10.2, st_mtime = 10.2\<rparr>
   \<and> validity_period [(None, ''max_cache_age'') \<mapsto> 100] ''src'' ''tgt'' = None
   \<and> map_sum id valid
       (get_piggyback_processed_file_info (\<lambda>p. 11)
          \<lparr>piggyback_dir =
             [(''tgt'', [(''src'', \<lparr>data = [], st_atime = 10.2, st_mtime = 10.2\<rparr>)])],
           piggyback_source_dir =
             [(''src'', \<lparr>data = [], st_atime = 10.7, st_mtime = 10.7\<rparr>)]\<rparr>
          ''src'' ''tgt'' (PiggybackedHostSource ''tgt'' ''src'')
          [(None, ''max_cache_age'') \<mapsto> 100]) = Inr True"
  by (simp add: get_piggyback_processed_file_info_def time_since_last_modification_def
        mk_PiggybackFileInfo_def is_piggybacked_host_abandoned_def Let_def max_cache_age_def
        TimeSettingsMap_match_def validity_period_def validity_state_def
        get_source_status_file_path_def)

subsection \<open>Empty batch\<close>

lemma delete_as_filter: "AList.delete k al = filter (\<lambda>e. fst e \<noteq> k) al"
  by (induction al) auto

text \<open>
  C8. An empty batch returns without an exception, whether or not the status file of
  the source existed; afterwards the status file is absent, the payload tree is
  unchanged, the source directory is the old one without the entry of the source, and
  every other path reads as before.
\<close>

theorem empty_batch_removes_status_file_only:
  "\<exists>fs'. store_piggyback_raw_data rt clk suffix src [] fs = Inr fs'
     \<and> piggyback_dir fs' = piggyback_dir fs
     \<and> piggyback_source_dir fs' = filter (\<lambda>e. fst e \<noteq> src) (piggyback_source_dir fs)
     \<and> lookup_file fs' (SourceStateFile src) = None
     \<and> (\<forall>p. p \<noteq> SourceStateFile src \<longrightarrow> lookup_file fs' p = lookup_file fs p)"
proof -
  have out: "lookup_file (drop_file fs (SourceStateFile src)) p = lookup_file fs p"
    if "p \<noteq> SourceStateFile src" for p
    using that by (cases p) (simp_all add: AList.delete_conv)
  show ?thesis
  proof (cases "lookup_file fs (SourceStateFile src)")
    case None
    then have "store_piggyback_raw_data rt clk suffix src [] fs = Inr fs"
      by (simp add: store_piggyback_raw_data_def remove_source_status_file_def
          remove_piggyback_file_def unlink_def get_source_status_file_path_def ENOENT_def)
    moreover have "filter (\<lambda>e. fst e \<noteq> src) (piggyback_source_dir fs) = piggyback_source_dir fs"
      using None by (auto simp: filter_id_conv map_of_eq_None_iff image_iff)
    ultimately show ?thesis using None by simp
  next
    case (Some f)
    then have "store_piggyback_raw_data rt clk suffix src [] fs = Inr (drop_file fs (SourceStateFile src))"
      by (simp add: store_piggyback_raw_data_def remove_source_status_file_def
          remove_piggyback_file_def unlink_def get_source_status_file_path_def)
    moreover have "piggyback_source_dir (drop_file fs (SourceStateFile src))
        = filter (\<lambda>e. fst e \<noteq> src) (piggyback_source_dir fs)"
      by (simp add: delete_as_filter)
    moreover have "lookup_file (drop_file fs (SourceStateFile src)) (SourceStateFile src) = None"
      by (simp add: AList.delete_conv)
    moreover have "piggyback_dir (drop_file fs (SourceStateFile src)) = piggyback_dir fs"
      by simp
    ultimately show ?thesis using out by metis
  qed
qed

text \<open>An empty batch from \<open>src\<close> removes its status file and leaves the payload alone.\<close>

theorem empty_batch_removes_status_file_only_witness:
  "store_piggyback_raw_data double_round_trip (\<lambda>p. 5) ''x'' ''src'' []
     \<lparr>piggyback_dir = [(''tgt'', [(''src'', \<lparr>data = ''a'', st_atime = 1, st_mtime = 1\<rparr>)])],
      piggyback_source_dir =
        [(''src'', \<lparr>data = [], st_atime = 1, st_mtime = 1\<rparr>),
         (''other'', \<lparr>data = [], st_atime = 2, st_mtime = 2\<rparr>)]\<rparr>
   = Inr \<lparr>piggyback_dir = [(''tgt'', [(''src'', \<lparr>data = ''a'', st_atime = 1, st_mtime = 1\<rparr>)])],
          piggyback_source_dir = [(''other'', \<lparr>data = [], st_atime = 2, st_mtime = 2\<rparr>)]\<rparr>"
  using empty_batch_removes_status_file_only [where rt = double_round_trip and clk = "\<lambda>p. 5" and suffix = "''x''"
      and src = "''src''" and fs =
     "\<lparr>piggyback_dir = [(''tgt'', [(''src'', \<lparr>data = ''a'', st_atime = 1, st_mtime = 1\<rparr>)])],
      piggyback_source_dir =
        [(''src'', \<lparr>data = [], st_atime = 1, st_mtime = 1\<rparr>),
         (''other'', \<lparr>data = [], st_atime = 2, st_mtime = 2\<rparr>)]\<rparr>"]
  by auto

subsection \<open>Raw data accessor\<close>

lemma read_file_info_entry:
  assumes "\<And>e. load (file_path fi) = Inl e \<Longrightarrow> \<exists>n txt. e = OSError n txt"
  shows "\<exists>d. read_file_info load fi = Inr d \<and> entry_of load fi d"
proof (cases "load (file_path fi)")
  case (Inr b)
  then show ?thesis by (simp add: read_file_info_def entry_of_def)
next
  case (Inl e)
  with assms obtain n msg where "e = OSError n msg" by blast
  with Inl show ?thesis
    by (simp add: read_file_info_def entry_of_def mk_PiggybackFileInfo_def)
qed

lemma read_file_infos_entries:
  assumes "\<forall>fi \<in> set fis. \<forall>e. load (file_path fi) = Inl e \<longrightarrow> (\<exists>n txt. e = OSError n txt)"
  shows "\<exists>ds. read_file_infos load fis = Inr ds \<and> list_all2 (entry_of load) fis ds"
  using assms
proof (induction fis)
  case Nil
  then show ?case by simp
next
  case (Cons fi fis)
  then obtain ds where ds: "read_file_infos load fis = Inr ds" "list_all2 (entry_of load) fis ds"
    by auto
  from Cons.prems obtain d where d: "read_file_info load fi = Inr d" "entry_of load fi d"
    using read_file_info_entry[of load fi] by auto
  from ds d show ?case by simp
qed

text \<open>
  C6. An absent or empty target identifier gives the empty result, whatever the storage
  and the reader. Otherwise, when the evaluation of the file infos returns \<open>fis\<close> and
  no read raises anything but an \<^verbatim>\<open>OSError\<close>, the result has one entry per file
  info, in the same order: the info with the bytes read, or, where the read raises an
  \<^verbatim>\<open>OSError\<close>, the same source and path with \<open>valid = False\<close>, status 0, the
  message naming the source and the error, and no bytes. Each entry depends on its own
  file info and read only. An exception of the evaluation is the accessor's.
\<close>

theorem accessor_entries:
  "get_piggyback_raw_data load re clk fs None ts = Inr []
   \<and> get_piggyback_raw_data load re clk fs (Some []) ts = Inr []
   \<and> (h \<noteq> [] \<and> get_piggyback_processed_file_infos re clk fs h ts = Inr fis
        \<and> (\<forall>fi \<in> set fis. \<forall>e. load (file_path fi) = Inl e \<longrightarrow> (\<exists>n txt. e = OSError n txt))
      \<longrightarrow> (\<exists>ds. get_piggyback_raw_data load re clk fs (Some h) ts = Inr ds
              \<and> length ds = length fis
              \<and> (\<forall>i < length fis.
                    case load (file_path (fis ! i)) of
                      Inr b \<Rightarrow> ds ! i = \<lparr>info = fis ! i, raw_data = b\<rparr>
                    | Inl e \<Rightarrow>
                        (\<exists>n txt. e = OSError n txt
                           \<and> info (ds ! i) =
                               \<lparr>source = source (fis ! i), file_path = file_path (fis ! i),
                                valid = False,
                                message = ''Cannot read piggyback raw data from source ''
                                            @ [CHR 39] @ source (fis ! i) @ [CHR 39] @ '': '' @ txt,
                                status = 0\<rparr>
                           \<and> raw_data (ds ! i) = []))))
   \<and> (h \<noteq> [] \<and> get_piggyback_processed_file_infos re clk fs h ts = Inl ex
      \<longrightarrow> get_piggyback_raw_data load re clk fs (Some h) ts = Inl ex)"
proof -
  have "\<exists>ds. get_piggyback_raw_data load re clk fs (Some h) ts = Inr ds
              \<and> length ds = length fis
              \<and> (\<forall>i < length fis. entry_of load (fis ! i) (ds ! i))"
    if h: "h \<noteq> []" and fis: "get_piggyback_processed_file_infos re clk fs h ts = Inr fis"
      and ld: "\<forall>fi \<in> set fis. \<forall>e. load (file_path fi) = Inl e \<longrightarrow> (\<exists>n txt. e = OSError n txt)"
  proof -
    from read_file_infos_entries[OF ld] obtain ds where
      ds: "read_file_infos load fis = Inr ds" "list_all2 (entry_of load) fis ds" by blast
    have "get_piggyback_raw_data load re clk fs (Some h) ts = Inr ds"
      using h fis ds by (cases fis) (simp_all add: get_piggyback_raw_data_def)
    with ds(2) show ?thesis by (auto simp: list_all2_conv_all_nth)
  qed
  then show ?thesis
    unfolding entry_of_def by (simp add: get_piggyback_raw_data_def)
qed


text \<open>The definitions a concrete evaluation of the readers unfolds.\<close>

lemmas eval_defs =
  get_piggyback_raw_data_def get_piggyback_processed_file_infos_def get_source_hostnames_def
  files_in_def startswith_def TimeSettingsMap_init_def setdefault_def
  get_piggyback_processed_file_info_def get_piggybacked_file_path_def
  time_since_last_modification_def max_cache_age_def validity_period_def validity_state_def
  TimeSettingsMap_match_def is_piggybacked_host_abandoned_def get_source_status_file_path_def
  mk_PiggybackFileInfo_def validity_period_message_def read_file_info_def Let_def

text \<open>Two sources for one target; the read of the first fails, the second is intact.\<close>

theorem accessor_entries_witness:
  "map_sum id (map (\<lambda>d. (source (info d), valid (info d), raw_data d)))
     (get_piggyback_raw_data
        (\<lambda>p. if p = PiggybackedHostSource ''tgt'' ''s1''
              then Inl (OSError 2 ''gone'') else Inr ''x'')
        (\<lambda>p s. Some False) (\<lambda>p. 10)
        \<lparr>piggyback_dir =
           [(''tgt'', [(''s1'', \<lparr>data = ''y'', st_atime = 1, st_mtime = 1\<rparr>),
                       (''s2'', \<lparr>data = ''x'', st_atime = 2, st_mtime = 2\<rparr>)])],
         piggyback_source_dir =
           [(''s1'', \<lparr>data = [], st_atime = 1, st_mtime = 1\<rparr>),
            (''s2'', \<lparr>data = [], st_atime = 2, st_mtime = 2\<rparr>)]\<rparr>
        (Some ''tgt'') [(None, ''max_cache_age'', 3600)])
   = Inr [(''s1'', False, []), (''s2'', True, ''x'')]"
  using accessor_entries [where load = "\<lambda>p. if p = PiggybackedHostSource ''tgt'' ''s1''
              then Inl (OSError 2 ''gone'') else Inr ''x''"
        and re = "\<lambda>p s. Some False" and clk = "\<lambda>p. 10" and fs =
        "\<lparr>piggyback_dir =
           [(''tgt'', [(''s1'', \<lparr>data = ''y'', st_atime = 1, st_mtime = 1\<rparr>),
                       (''s2'', \<lparr>data = ''x'', st_atime = 2, st_mtime = 2\<rparr>)])],
         piggyback_source_dir =
           [(''s1'', \<lparr>data = [], st_atime = 1, st_mtime = 1\<rparr>),
            (''s2'', \<lparr>data = [], st_atime = 2, st_mtime = 2\<rparr>)]\<rparr>"
        and h = "''tgt''" and ts = "[(None, ''max_cache_age'', 3600)]"]
  by (simp add: eval_defs)


subsection \<open>Time settings\<close>

lemma expand_settings_Cons:
  assumes "expand_settings re srcs tgt (r # rest) acc = Inr m"
  shows "expand_settings re srcs tgt rest
           (case rule_scope re srcs tgt (fst r) of
              None \<Rightarrow> acc
            | Some sc \<Rightarrow> setdefault acc (sc, fst (snd r)) (snd (snd r))) = Inr m"
proof -
  obtain expr key v where r: "r = (expr, key, v)" by (cases r) auto
  show ?thesis
  proof (cases expr)
    case None
    with assms r show ?thesis by (simp add: rule_scope_def)
  next
    case (Some e)
    with assms r show ?thesis
      by (auto simp: rule_scope_def split: if_splits option.splits bool.splits)
  qed
qed

lemma setdefault_apply:
  "setdefault acc k v k' = (if k' = k \<and> acc k = None then Some v else acc k')"
  by (auto simp: setdefault_def split: option.splits)

lemma expand_settings_first_wins:
  "expand_settings re srcs tgt rules acc = Inr m \<Longrightarrow>
   m (sc, key) =
     (case acc (sc, key) of
        Some v \<Rightarrow> Some v
      | None \<Rightarrow> map_option (\<lambda>r. snd (snd r)) (find (registers re srcs tgt sc key) rules))"
proof (induction rules arbitrary: acc)
  case Nil
  then show ?case by (simp split: option.splits)
next
  case (Cons r rest)
  let ?acc = "case rule_scope re srcs tgt (fst r) of
                None \<Rightarrow> acc
              | Some sc \<Rightarrow> setdefault acc (sc, fst (snd r)) (snd (snd r))"
  have ih: "m (sc, key) =
     (case ?acc (sc, key) of
        Some v \<Rightarrow> Some v
      | None \<Rightarrow> map_option (\<lambda>r. snd (snd r)) (find (registers re srcs tgt sc key) rest))"
    using Cons.IH[OF expand_settings_Cons[OF Cons.prems]] .
  show ?case
  proof (cases "registers re srcs tgt sc key r")
    case True
    then have "?acc (sc, key) = (case acc (sc, key) of Some v \<Rightarrow> Some v | None \<Rightarrow> Some (snd (snd r)))"
      by (auto simp: registers_def setdefault_apply split: option.splits)
    with ih True show ?thesis by (simp split: option.splits)
  next
    case False
    then have "?acc (sc, key) = acc (sc, key)"
      by (auto simp: registers_def setdefault_apply split: option.splits)
    with ih False show ?thesis by (simp split: option.splits)
  qed
qed

lemma expand_settings_total:
  "\<forall>p. re p tgt \<noteq> None \<Longrightarrow> \<exists>m. expand_settings re srcs tgt rules acc = Inr m"
proof (induction rules arbitrary: acc)
  case Nil
  then show ?case by simp
next
  case (Cons r rest)
  obtain expr key v where r: "r = (expr, key, v)" by (cases r) auto
  show ?case
  proof (cases expr)
    case None
    with r Cons show ?thesis by simp
  next
    case (Some e)
    from Cons.prems obtain b where "re (drop 1 e) tgt = Some b" by auto
    with r Some Cons show ?thesis by (cases b) auto
  qed
qed


lemma TimeSettingsMap_init_first_wins:
  "TimeSettingsMap_init re srcs tgt rules = Inr m \<Longrightarrow>
   m (sc, key) = map_option (\<lambda>r. snd (snd r)) (find (registers re srcs tgt sc key) rules)"
  using expand_settings_first_wins[of re srcs tgt rules Map.empty m sc key]
  by (simp add: TimeSettingsMap_init_def)

text \<open>
  C2. Registration is first-wins: the expanded map holds, for every scope and key, the
  value of the first rule of the sequence that registers under them, and the
  construction succeeds whenever every pattern compiles. Host names do not begin with
  the regex marker (the specification has the patterns prefixed distinctly from exact
  names); when no known source name begins with it, a rule whose expression starts
  with the marker and matches the target registers under the target's own scope. The
  lookup tries the target-scoped value, then the source-scoped one, then the global
  one, and raises \<^verbatim>\<open>KeyError\<close> when none exists; \<open>max_cache_age\<close> is that lookup (its
  \<^verbatim>\<open>KeyError\<close> is not caught), a missing \<open>validity_period\<close> is \<open>None\<close> and a missing
  \<open>validity_state\<close> is 0.
\<close>

theorem time_settings_resolution:
  "(\<forall>m'. TimeSettingsMap_init re srcs tgt rules = Inr m' \<longrightarrow>
      (\<forall>sc k. m' (sc, k) =
         map_option (\<lambda>r. snd (snd r)) (find (registers re srcs tgt sc k) rules)))
   \<and> ((\<forall>p. re p tgt \<noteq> None) \<longrightarrow> (\<exists>m'. TimeSettingsMap_init re srcs tgt rules = Inr m'))
   \<and> ((\<forall>n \<in> set srcs. \<not> startswith n ''~'')
        \<and> startswith e ''~'' \<and> re (drop 1 e) tgt = Some True \<longrightarrow>
        rule_scope re srcs tgt (Some e) = Some (Some tgt)
        \<and> registers re srcs tgt (Some tgt) key (Some e, key, v)
        \<and> TimeSettingsMap_init re srcs tgt [(Some e, key, v)] = Inr [(Some tgt, key) \<mapsto> v])
   \<and> (\<forall>w. m (Some tgt, key) = Some w \<longrightarrow> TimeSettingsMap_match m key src tgt = Inr w)
   \<and> (\<forall>w. m (Some tgt, key) = None \<and> m (Some src, key) = Some w \<longrightarrow>
          TimeSettingsMap_match m key src tgt = Inr w)
   \<and> (\<forall>w. m (Some tgt, key) = None \<and> m (Some src, key) = None \<and> m (None, key) = Some w \<longrightarrow>
          TimeSettingsMap_match m key src tgt = Inr w)
   \<and> (m (Some tgt, key) = None \<and> m (Some src, key) = None \<and> m (None, key) = None \<longrightarrow>
          TimeSettingsMap_match m key src tgt = Inl KeyError)
   \<and> max_cache_age m src tgt = TimeSettingsMap_match m ''max_cache_age'' src tgt
   \<and> (\<forall>w. TimeSettingsMap_match m ''validity_period'' src tgt = Inr w \<longrightarrow>
          validity_period m src tgt = Some w)
   \<and> (TimeSettingsMap_match m ''validity_period'' src tgt = Inl KeyError \<longrightarrow>
          validity_period m src tgt = None)
   \<and> (\<forall>w. TimeSettingsMap_match m ''validity_state'' src tgt = Inr w \<longrightarrow>
          validity_state m src tgt = w)
   \<and> (TimeSettingsMap_match m ''validity_state'' src tgt = Inl KeyError \<longrightarrow>
          validity_state m src tgt = 0)"
proof -
  have a: "\<forall>m'. TimeSettingsMap_init re srcs tgt rules = Inr m' \<longrightarrow>
      (\<forall>sc k. m' (sc, k) =
         map_option (\<lambda>r. snd (snd r)) (find (registers re srcs tgt sc k) rules))"
    using TimeSettingsMap_init_first_wins by blast
  have b: "(\<forall>p. re p tgt \<noteq> None) \<longrightarrow> (\<exists>m'. TimeSettingsMap_init re srcs tgt rules = Inr m')"
    using expand_settings_total[of re tgt srcs rules Map.empty]
    by (simp add: TimeSettingsMap_init_def)
  have c: "rule_scope re srcs tgt (Some e) = Some (Some tgt)
        \<and> registers re srcs tgt (Some tgt) key (Some e, key, v)
        \<and> TimeSettingsMap_init re srcs tgt [(Some e, key, v)] = Inr [(Some tgt, key) \<mapsto> v]"
    if dom: "\<forall>n \<in> set srcs. \<not> startswith n ''~''"
      and mk: "startswith e ''~''" and mt: "re (drop 1 e) tgt = Some True"
  proof -
    from dom mk have ns: "e \<notin> set srcs" by blast
    show ?thesis
    proof (cases "e = tgt")
      case True
      with ns show ?thesis
        by (simp add: rule_scope_def registers_def TimeSettingsMap_init_def setdefault_def)
    next
      case False
      with ns mk mt show ?thesis
        by (simp add: rule_scope_def registers_def TimeSettingsMap_init_def setdefault_def)
    qed
  qed
  have d: "(\<forall>w. m (Some tgt, key) = Some w \<longrightarrow> TimeSettingsMap_match m key src tgt = Inr w)
   \<and> (\<forall>w. m (Some tgt, key) = None \<and> m (Some src, key) = Some w \<longrightarrow>
          TimeSettingsMap_match m key src tgt = Inr w)
   \<and> (\<forall>w. m (Some tgt, key) = None \<and> m (Some src, key) = None \<and> m (None, key) = Some w \<longrightarrow>
          TimeSettingsMap_match m key src tgt = Inr w)
   \<and> (m (Some tgt, key) = None \<and> m (Some src, key) = None \<and> m (None, key) = None \<longrightarrow>
          TimeSettingsMap_match m key src tgt = Inl KeyError)"
    by (simp add: TimeSettingsMap_match_def)
  have f: "max_cache_age m src tgt = TimeSettingsMap_match m ''max_cache_age'' src tgt
   \<and> (\<forall>w. TimeSettingsMap_match m ''validity_period'' src tgt = Inr w \<longrightarrow>
          validity_period m src tgt = Some w)
   \<and> (TimeSettingsMap_match m ''validity_period'' src tgt = Inl KeyError \<longrightarrow>
          validity_period m src tgt = None)
   \<and> (\<forall>w. TimeSettingsMap_match m ''validity_state'' src tgt = Inr w \<longrightarrow>
          validity_state m src tgt = w)
   \<and> (TimeSettingsMap_match m ''validity_state'' src tgt = Inl KeyError \<longrightarrow>
          validity_state m src tgt = 0)"
    by (simp add: max_cache_age_def validity_period_def validity_state_def)
  from a b c d f show ?thesis by blast
qed

text \<open>
  A regex rule, a global rule and an exact target rule for the same key: the regex rule
  comes first and wins the target's scope.
\<close>

theorem time_settings_resolution_witness:
  "TimeSettingsMap_init (\<lambda>p s. Some True) [''s''] ''host''
     [(Some ''~ho'', ''max_cache_age'', 5), (None, ''max_cache_age'', 7),
      (Some ''host'', ''max_cache_age'', 9)]
    = Inr [(Some ''host'', ''max_cache_age'') \<mapsto> 5, (None, ''max_cache_age'') \<mapsto> 7]
   \<and> rule_scope (\<lambda>p s. Some True) [''s''] ''host'' (Some ''~ho'') = Some (Some ''host'')
   \<and> max_cache_age [(Some ''host'', ''max_cache_age'') \<mapsto> 5, (None, ''max_cache_age'') \<mapsto> 7]
         ''s'' ''host'' = Inr 5
   \<and> validity_period [(Some ''host'', ''max_cache_age'') \<mapsto> 5, (None, ''max_cache_age'') \<mapsto> 7]
         ''s'' ''host'' = None
   \<and> validity_state [(Some ''host'', ''max_cache_age'') \<mapsto> 5, (None, ''max_cache_age'') \<mapsto> 7]
         ''s'' ''host'' = 0"
  using time_settings_resolution [where re = "\<lambda>p s. Some True" and srcs = "[''s'']"
      and tgt = "''host''" and e = "''~ho''" and key = "''max_cache_age''" and v = 5
      and src = "''s''"
      and m = "[(Some ''host'', ''max_cache_age'') \<mapsto> 5, (None, ''max_cache_age'') \<mapsto> 7]"
      and rules = "[(Some ''~ho'', ''max_cache_age'', 5), (None, ''max_cache_age'', 7),
      (Some ''host'', ''max_cache_age'', 9)]"]
  by (simp add: TimeSettingsMap_init_def setdefault_def startswith_def
        TimeSettingsMap_match_def max_cache_age_def validity_period_def validity_state_def)

subsection \<open>Status file writer\<close>

lemma lookup_put_file:
  "lookup_file (put_file fs (PiggybackedHostSource h s) f) q =
     (if q = PiggybackedHostSource h s then Some f else lookup_file fs q)"
  "lookup_file (put_file fs (SourceStateFile s) f) q =
     (if q = SourceStateFile s then Some f else lookup_file fs q)"
  by (cases q; auto simp: AList.update_conv' split: option.splits)+

lemma lookup_drop_file:
  "lookup_file (drop_file fs p) q = (if q = p then None else lookup_file fs q)"
proof (cases p)
  case (PiggybackedHostSource h s)
  then show ?thesis
    by (cases q) (auto simp: AList.update_conv' AList.delete_conv split: option.splits)
next
  case (SourceStateFile s)
  then show ?thesis by (cases q) (auto simp: AList.delete_conv)
qed (cases q; simp)+

lemma lookup_Some_put_file:
  "lookup_file fs p = Some g \<Longrightarrow>
   lookup_file (put_file fs p f) q = (if q = p then Some f else lookup_file fs q)"
  by (cases p) (simp_all add: lookup_put_file del: put_file.simps)

lemma utime_all_lookup:
  "\<exists>fs'. utime_all rt fs ps tms = Inr fs'
     \<and> (\<forall>q. lookup_file fs' q =
            (if q \<in> set ps
             then map_option (retimed (rt (fst tms), rt (snd tms))) (lookup_file fs q)
             else lookup_file fs q))"
proof (induction ps arbitrary: fs)
  case Nil
  then show ?case by simp
next
  case (Cons p ps)
  let ?tms = "(rt (fst tms), rt (snd tms))"
  show ?case
  proof (cases "lookup_file fs p")
    case None
    then have "utime_all rt fs (p # ps) tms = utime_all rt fs ps tms"
      by (simp add: utime_def ENOENT_def)
    with Cons[of fs] None show ?thesis by auto
  next
    case (Some f)
    let ?fs1 = "put_file fs p (retimed ?tms f)"
    have 1: "utime_all rt fs (p # ps) tms = utime_all rt ?fs1 ps tms"
      using Some by (simp add: utime_def retimed_def)
    have 2: "lookup_file ?fs1 q = (if q = p then Some (retimed ?tms f) else lookup_file fs q)" for q
      using lookup_Some_put_file[OF Some] by simp
    from Cons[of ?fs1] obtain fs' where fs': "utime_all rt ?fs1 ps tms = Inr fs'"
      "\<forall>q. lookup_file fs' q =
            (if q \<in> set ps then map_option (retimed ?tms) (lookup_file ?fs1 q)
             else lookup_file ?fs1 q)" by blast
    have "lookup_file fs' q =
            (if q \<in> set (p # ps) then map_option (retimed ?tms) (lookup_file fs q)
             else lookup_file fs q)" for q
      using fs'(2) 2 Some by (auto simp: retimed_def)
    with 1 fs'(1) show ?thesis by auto
  qed
qed


lemma tmp_path_of_status:
  "tmp_path_of (SourceStateFile s) suffix = SourceStateFile (''.'' @ s @ ''.new'' @ suffix)"
  "tmp_path_of (SourceStateFile s) suffix \<noteq> SourceStateFile s"
  by (simp_all add: tmp_path_of_def)

lemma status_file_prepared_lookup:
  fixes clk :: clock and s :: string and suffix :: string
  defines "t \<equiv> clk (tmp_path_of (SourceStateFile s) suffix)"
  shows "\<exists>fs2. status_file_prepared rt clk suffix (SourceStateFile s) ps fs = Inr fs2
     \<and> (\<forall>q. lookup_file fs2 q =
            (if q \<in> set ps
             then map_option (retimed (rt t, rt t))
                    (if q = tmp_path_of (SourceStateFile s) suffix
                     then Some \<lparr>data = [], st_atime = t, st_mtime = t\<rparr>
                     else lookup_file fs q)
             else if q = tmp_path_of (SourceStateFile s) suffix
             then Some \<lparr>data = [], st_atime = t, st_mtime = t\<rparr>
             else lookup_file fs q))"
proof -
  let ?tmp = "tmp_path_of (SourceStateFile s) suffix"
  let ?f = "\<lparr>data = [], st_atime = t, st_mtime = t\<rparr>"
  let ?fs1 = "put_file fs ?tmp ?f"
  have 1: "lookup_file ?fs1 q = (if q = ?tmp then Some ?f else lookup_file fs q)" for q
    by (simp add: tmp_path_of_status(1) lookup_put_file del: put_file.simps)
  from utime_all_lookup[of rt ?fs1 ps "(t, t)"] obtain fs2 where
    fs2: "utime_all rt ?fs1 ps (t, t) = Inr fs2"
      "\<forall>q. lookup_file fs2 q =
            (if q \<in> set ps then map_option (retimed (rt t, rt t)) (lookup_file ?fs1 q)
             else lookup_file ?fs1 q)" by auto
  have "status_file_prepared rt clk suffix (SourceStateFile s) ps fs = Inr fs2"
    using fs2(1) 1[of ?tmp] by (simp add: status_file_prepared_def Let_def t_def)
  moreover have "lookup_file fs2 q =
            (if q \<in> set ps
             then map_option (retimed (rt t, rt t)) (if q = ?tmp then Some ?f else lookup_file fs q)
             else if q = ?tmp then Some ?f
             else lookup_file fs q)" for q
    using fs2(2) 1 by simp
  ultimately show ?thesis by blast
qed

lemma store_status_file_of_lookup:
  fixes clk :: clock and s :: string and suffix :: string
  defines "t \<equiv> clk (tmp_path_of (SourceStateFile s) suffix)"
  assumes "tmp_path_of (SourceStateFile s) suffix \<notin> set ps"
  shows "\<exists>fs3. store_status_file_of rt clk suffix (SourceStateFile s) ps fs = Inr fs3
     \<and> (\<forall>q. lookup_file fs3 q =
            (if q = SourceStateFile s then Some \<lparr>data = [], st_atime = t, st_mtime = t\<rparr>
             else if q = tmp_path_of (SourceStateFile s) suffix then None
             else if q \<in> set ps then map_option (retimed (rt t, rt t)) (lookup_file fs q)
             else lookup_file fs q))"
proof -
  let ?tmp = "tmp_path_of (SourceStateFile s) suffix"
  let ?f = "\<lparr>data = [], st_atime = t, st_mtime = t\<rparr>"
  from status_file_prepared_lookup[of rt clk suffix s ps fs] assms(2) obtain fs2 where
    fs2: "status_file_prepared rt clk suffix (SourceStateFile s) ps fs = Inr fs2"
      "\<And>q. lookup_file fs2 q =
            (if q = ?tmp then Some ?f
             else if q \<in> set ps then map_option (retimed (rt t, rt t)) (lookup_file fs q)
             else lookup_file fs q)" unfolding t_def by (auto simp del: lookup_file.simps)
  let ?fs3 = "put_file (drop_file fs2 ?tmp) (SourceStateFile s) ?f"
  have "store_status_file_of rt clk suffix (SourceStateFile s) ps fs = Inr ?fs3"
    using fs2(1) fs2(2)[of ?tmp] by (simp add: store_status_file_of_def rename_def)
  moreover have "lookup_file ?fs3 q =
            (if q = SourceStateFile s then Some ?f
             else if q = ?tmp then None
             else if q \<in> set ps then map_option (retimed (rt t, rt t)) (lookup_file fs q)
             else lookup_file fs q)" for q
    using fs2(2)[of q]
    by (simp add: lookup_put_file lookup_drop_file del: put_file.simps drop_file.simps)
  ultimately show ?thesis by blast
qed

lemma store_payloads_paths:
  "snd (store_payloads clk s batch fs acc)
     = acc @ map (\<lambda>e. PiggybackedHostSource (fst e) s) batch"
  by (induction batch arbitrary: fs acc)
     (auto simp: Let_def get_piggybacked_file_path_def)

lemma store_payloads_other:
  "q \<notin> (\<lambda>e. PiggybackedHostSource (fst e) s) ` set batch \<Longrightarrow>
   lookup_file (fst (store_payloads clk s batch fs acc)) q = lookup_file fs q"
  by (induction batch arbitrary: fs acc)
     (auto simp: Let_def get_piggybacked_file_path_def save_bytes_to_file_def lookup_put_file
           simp del: put_file.simps)

lemma store_payloads_written:
  "distinct (map fst batch) \<Longrightarrow> (h, lines) \<in> set batch \<Longrightarrow>
   lookup_file (fst (store_payloads clk s batch fs acc)) (PiggybackedHostSource h s)
     = Some \<lparr>data = bytes_join [CHR 10] lines @ [CHR 10],
             st_atime = clk (PiggybackedHostSource h s),
             st_mtime = clk (PiggybackedHostSource h s)\<rparr>"
proof (induction batch arbitrary: fs acc)
  case Nil
  then show ?case by simp
next
  case (Cons e batch)
  obtain h' lines' where e: "e = (h', lines')" by (cases e)
  show ?case
  proof (cases "(h, lines) \<in> set batch")
    case True
    with Cons e show ?thesis by (simp add: Let_def)
  next
    case False
    with Cons.prems e have eq: "h' = h" "lines' = lines" by auto
    from Cons.prems e eq have "PiggybackedHostSource h s
        \<notin> (\<lambda>e. PiggybackedHostSource (fst e) s) ` set batch"
      by (auto simp: image_iff)
    note other = store_payloads_other[OF this]
    from e eq show ?thesis
      by (simp add: Let_def get_piggybacked_file_path_def save_bytes_to_file_def lookup_put_file
           other del: put_file.simps lookup_file.simps)
  qed
qed

lemma store_payloads_exists:
  "h \<in> fst ` set batch \<Longrightarrow>
   lookup_file (fst (store_payloads clk s batch fs acc)) (PiggybackedHostSource h s) \<noteq> None"
proof (induction batch arbitrary: fs acc)
  case Nil
  then show ?case by simp
next
  case (Cons e batch)
  obtain h' lines' where e: "e = (h', lines')" by (cases e)
  show ?case
  proof (cases "h \<in> fst ` set batch")
    case True
    with Cons e show ?thesis by (simp add: Let_def)
  next
    case False
    with Cons.prems e have eq: "h' = h" by auto
    from False have "PiggybackedHostSource h s
        \<notin> (\<lambda>e. PiggybackedHostSource (fst e) s) ` set batch"
      by (auto simp: image_iff)
    note other = store_payloads_other[OF this]
    from e eq show ?thesis
      by (simp add: Let_def get_piggybacked_file_path_def save_bytes_to_file_def lookup_put_file
           other del: put_file.simps lookup_file.simps)
  qed
qed

lemma store_piggyback_raw_data_lookup:
  fixes clk :: clock and s :: string and suffix :: string
  defines "t \<equiv> clk (tmp_path_of (SourceStateFile s) suffix)"
  assumes "batch \<noteq> []"
  shows "\<exists>fs'. store_piggyback_raw_data rt clk suffix s batch fs = Inr fs'
     \<and> (\<forall>q. lookup_file fs' q =
           (if q = SourceStateFile s then Some \<lparr>data = [], st_atime = t, st_mtime = t\<rparr>
            else if q = tmp_path_of (SourceStateFile s) suffix then None
            else if q \<in> (\<lambda>e. PiggybackedHostSource (fst e) s) ` set batch
            then map_option (retimed (rt t, rt t))
                   (lookup_file (fst (store_payloads clk s batch fs [])) q)
            else lookup_file (fst (store_payloads clk s batch fs [])) q))"
proof -
  let ?st = "store_payloads clk s batch fs []"
  have "store_piggyback_raw_data rt clk suffix s batch fs
      = store_status_file_of rt clk suffix (SourceStateFile s) (snd ?st) (fst ?st)"
    using assms(2) by (simp add: store_piggyback_raw_data_def Let_def get_source_status_file_path_def)
  moreover have set: "set (snd ?st) = (\<lambda>e. PiggybackedHostSource (fst e) s) ` set batch"
    by (simp add: store_payloads_paths)
  moreover have "tmp_path_of (SourceStateFile s) suffix \<notin> set (snd ?st)"
    unfolding set by (auto simp: tmp_path_of_status(1))
  from store_status_file_of_lookup[OF this, of rt clk "fst ?st"]
  have "\<exists>fs3. store_status_file_of rt clk suffix (SourceStateFile s) (snd ?st) (fst ?st) = Inr fs3
     \<and> (\<forall>q. lookup_file fs3 q =
            (if q = SourceStateFile s then Some \<lparr>data = [], st_atime = t, st_mtime = t\<rparr>
             else if q = tmp_path_of (SourceStateFile s) suffix then None
             else if q \<in> set (snd ?st)
             then map_option (retimed (rt t, rt t)) (lookup_file (fst ?st) q)
             else lookup_file (fst ?st) q))"
    unfolding t_def .
  ultimately show ?thesis
    by (simp only:)
qed

lemma double_round_trip_floor: "\<lfloor>t\<rfloor> \<le> \<lfloor>double_round_trip t\<rfloor>"
proof -
  let ?k = "py_round (t * 2 ^ 22)"
  have "of_int \<lfloor>t\<rfloor> * 2 ^ 22 \<le> t * 2 ^ 22" by simp
  then have "\<lfloor>t\<rfloor> * 2 ^ 22 \<le> \<lfloor>t * 2 ^ 22\<rfloor>" by (simp add: le_floor_iff)
  moreover have "\<lfloor>t * 2 ^ 22\<rfloor> \<le> ?k" by (simp add: py_round_def Let_def)
  ultimately have "\<lfloor>t\<rfloor> * 2 ^ 22 \<le> ?k" by simp
  then have "real_of_int (\<lfloor>t\<rfloor> * 2 ^ 22) \<le> real_of_int ?k" by (simp only: of_int_le_iff)
  then have "real_of_int \<lfloor>t\<rfloor> \<le> real_of_int ?k / 2 ^ 22" by (simp add: le_divide_eq)
  then have "real_of_int (\<lfloor>t\<rfloor> * 10 ^ 9) \<le> real_of_int ?k / 2 ^ 22 * 10 ^ 9" by simp
  then have "\<lfloor>t\<rfloor> * 10 ^ 9 \<le> \<lfloor>real_of_int ?k / 2 ^ 22 * 10 ^ 9\<rfloor>"
    by (simp only: le_floor_iff)
  then have "real_of_int (\<lfloor>t\<rfloor> * 10 ^ 9) \<le> real_of_int \<lfloor>real_of_int ?k / 2 ^ 22 * 10 ^ 9\<rfloor>"
    by (simp only: of_int_le_iff)
  then have "real_of_int \<lfloor>t\<rfloor> \<le> double_round_trip t"
    by (simp add: double_round_trip_def le_divide_eq)
  then show ?thesis by (simp add: le_floor_iff)
qed

text \<open>
  C3 (as amended). A non-empty batch is stored without an exception. Afterwards the
  status file of the source carries the time stamps of the freshly created temporary
  file, and every payload file of the batch exists with, as access and modification
  time, the image of that stamp under the round trip through a float: what
  \<^verbatim>\<open>os.utime\<close> stores when it is given the float that \<^verbatim>\<open>os.stat\<close> reported. The
  abandonment test of the inspector holds for such a pair exactly when the round trip
  moved the stamp into an earlier whole second. For the status file writer on any list
  of payload paths: the state before the final rename already has every existing
  payload file of the list at these stamps, a missing one is skipped (it stays missing,
  no exception), the status file is still the old one in that state, and the rename
  changes none of the payload files. The round trip \<open>double_round_trip\<close> never moves a
  stamp into an earlier whole second, so with it no payload file of the batch is
  abandoned after the write.
\<close>

theorem payload_times_follow_status_file:
  "(batch \<noteq> [] \<longrightarrow>
     (\<exists>fs'. store_piggyback_raw_data rt clk suffix s batch fs = Inr fs'
        \<and> lookup_file fs' (get_source_status_file_path s)
            = Some \<lparr>data = [],
                    st_atime = clk (tmp_path_of (get_source_status_file_path s) suffix),
                    st_mtime = clk (tmp_path_of (get_source_status_file_path s) suffix)\<rparr>
        \<and> (\<forall>h \<in> fst ` set batch.
              (\<exists>f. lookup_file fs' (get_piggybacked_file_path s h) = Some f
                 \<and> st_atime f = rt (clk (tmp_path_of (get_source_status_file_path s) suffix))
                 \<and> st_mtime f = rt (clk (tmp_path_of (get_source_status_file_path s) suffix)))
              \<and> (is_piggybacked_host_abandoned fs' (get_source_status_file_path s)
                      (get_piggybacked_file_path s h)
                  \<longleftrightarrow> \<lfloor>rt (clk (tmp_path_of (get_source_status_file_path s) suffix))\<rfloor>
                        < \<lfloor>clk (tmp_path_of (get_source_status_file_path s) suffix)\<rfloor>))))
   \<and> ((\<forall>p \<in> set ps. \<exists>h s'. p = PiggybackedHostSource h s') \<longrightarrow>
     (\<exists>fs2 fs3.
        status_file_prepared rt clk suffix (get_source_status_file_path s) ps fs = Inr fs2
        \<and> rename fs2 (tmp_path_of (get_source_status_file_path s) suffix)
             (get_source_status_file_path s) = Inr fs3
        \<and> store_status_file_of rt clk suffix (get_source_status_file_path s) ps fs = Inr fs3
        \<and> lookup_file fs2 (get_source_status_file_path s)
            = lookup_file fs (get_source_status_file_path s)
        \<and> (\<forall>p \<in> set ps.
              lookup_file fs3 p = lookup_file fs2 p
              \<and> (case lookup_file fs p of
                    None \<Rightarrow> lookup_file fs2 p = None
                  | Some f \<Rightarrow>
                      lookup_file fs2 p =
                        Some (f\<lparr>st_atime :=
                                  rt (clk (tmp_path_of (get_source_status_file_path s) suffix)),
                                st_mtime :=
                                  rt (clk (tmp_path_of (get_source_status_file_path s) suffix))\<rparr>)))))
   \<and> (batch \<noteq> [] \<longrightarrow>
     (\<exists>fs'. store_piggyback_raw_data double_round_trip clk suffix s batch fs = Inr fs'
        \<and> (\<forall>h \<in> fst ` set batch.
              \<not> is_piggybacked_host_abandoned fs' (get_source_status_file_path s)
                    (get_piggybacked_file_path s h))))"
proof -
  let ?status = "SourceStateFile s"
  let ?tmp = "tmp_path_of ?status suffix"
  let ?t = "clk ?tmp"
  have A: "\<exists>fs'. store_piggyback_raw_data rt clk suffix s batch fs = Inr fs'
        \<and> lookup_file fs' ?status = Some \<lparr>data = [], st_atime = ?t, st_mtime = ?t\<rparr>
        \<and> (\<forall>h \<in> fst ` set batch.
              (\<exists>f. lookup_file fs' (PiggybackedHostSource h s) = Some f
                 \<and> st_atime f = rt ?t \<and> st_mtime f = rt ?t)
              \<and> (is_piggybacked_host_abandoned fs' ?status (PiggybackedHostSource h s)
                  \<longleftrightarrow> \<lfloor>rt ?t\<rfloor> < \<lfloor>?t\<rfloor>))"
    if ne: "batch \<noteq> []" for rt
  proof -
    from store_piggyback_raw_data_lookup[OF ne, of rt clk suffix s fs] obtain fs' where
      fs': "store_piggyback_raw_data rt clk suffix s batch fs = Inr fs'"
      and lk: "\<And>q. lookup_file fs' q =
           (if q = ?status then Some \<lparr>data = [], st_atime = ?t, st_mtime = ?t\<rparr>
            else if q = ?tmp then None
            else if q \<in> (\<lambda>e. PiggybackedHostSource (fst e) s) ` set batch
            then map_option (retimed (rt ?t, rt ?t))
                   (lookup_file (fst (store_payloads clk s batch fs [])) q)
            else lookup_file (fst (store_payloads clk s batch fs [])) q)"
      by blast
    have st: "lookup_file fs' ?status = Some \<lparr>data = [], st_atime = ?t, st_mtime = ?t\<rparr>"
      using lk[of ?status] by simp
    have pl: "(\<exists>f. lookup_file fs' (PiggybackedHostSource h s) = Some f
                 \<and> st_atime f = rt ?t \<and> st_mtime f = rt ?t)
              \<and> (is_piggybacked_host_abandoned fs' ?status (PiggybackedHostSource h s)
                  \<longleftrightarrow> \<lfloor>rt ?t\<rfloor> < \<lfloor>?t\<rfloor>)"
      if h: "h \<in> fst ` set batch" for h
    proof -
      from store_payloads_exists[OF h, of clk s fs "[]"] obtain g where
        g: "lookup_file (fst (store_payloads clk s batch fs [])) (PiggybackedHostSource h s) = Some g"
        by auto
      have "PiggybackedHostSource h s \<in> (\<lambda>e. PiggybackedHostSource (fst e) s) ` set batch"
        using h by auto
      with lk[of "PiggybackedHostSource h s"] g
      have f: "lookup_file fs' (PiggybackedHostSource h s) = Some (retimed (rt ?t, rt ?t) g)"
        by (simp add: tmp_path_of_status(1))
      with st show ?thesis
        by (simp add: is_piggybacked_host_abandoned_def retimed_def del: lookup_file.simps)
    qed
    from fs' st pl show ?thesis by blast
  qed
  have B: "\<exists>fs2 fs3.
        status_file_prepared rt clk suffix ?status ps fs = Inr fs2
        \<and> rename fs2 ?tmp ?status = Inr fs3
        \<and> store_status_file_of rt clk suffix ?status ps fs = Inr fs3
        \<and> lookup_file fs2 ?status = lookup_file fs ?status
        \<and> (\<forall>p \<in> set ps.
              lookup_file fs3 p = lookup_file fs2 p
              \<and> (case lookup_file fs p of
                    None \<Rightarrow> lookup_file fs2 p = None
                  | Some f \<Rightarrow>
                      lookup_file fs2 p = Some (f\<lparr>st_atime := rt ?t, st_mtime := rt ?t\<rparr>)))"
    if ps: "\<forall>p \<in> set ps. \<exists>h s'. p = PiggybackedHostSource h s'"
  proof -
    have ntmp: "?tmp \<notin> set ps" using ps by (auto simp: tmp_path_of_status(1))
    from status_file_prepared_lookup[of rt clk suffix s ps fs] ntmp obtain fs2 where
      fs2: "status_file_prepared rt clk suffix ?status ps fs = Inr fs2"
      and lk2: "\<And>q. lookup_file fs2 q =
            (if q = ?tmp then Some \<lparr>data = [], st_atime = ?t, st_mtime = ?t\<rparr>
             else if q \<in> set ps then map_option (retimed (rt ?t, rt ?t)) (lookup_file fs q)
             else lookup_file fs q)" by (auto simp del: lookup_file.simps)
    from store_status_file_of_lookup[OF ntmp, of rt clk fs] obtain fs3 where
      fs3: "store_status_file_of rt clk suffix ?status ps fs = Inr fs3"
      and lk3: "\<And>q. lookup_file fs3 q =
            (if q = ?status then Some \<lparr>data = [], st_atime = ?t, st_mtime = ?t\<rparr>
             else if q = ?tmp then None
             else if q \<in> set ps then map_option (retimed (rt ?t, rt ?t)) (lookup_file fs q)
             else lookup_file fs q)" by blast
    have rn: "rename fs2 ?tmp ?status = Inr fs3"
      using fs2 fs3 by (simp add: store_status_file_of_def)
    have nst: "?status \<notin> set ps" using ps by auto
    have 1: "lookup_file fs2 ?status = lookup_file fs ?status"
      using lk2[of ?status] nst tmp_path_of_status(2)[of s suffix]
      by (simp del: lookup_file.simps)
    have 2: "lookup_file fs3 p = lookup_file fs2 p
              \<and> (case lookup_file fs p of
                    None \<Rightarrow> lookup_file fs2 p = None
                  | Some f \<Rightarrow>
                      lookup_file fs2 p = Some (f\<lparr>st_atime := rt ?t, st_mtime := rt ?t\<rparr>))"
      if p: "p \<in> set ps" for p
    proof -
      from ps p obtain h s' where "p = PiggybackedHostSource h s'" by blast
      then have "p \<noteq> ?status" "p \<noteq> ?tmp" by (simp_all add: tmp_path_of_status(1))
      with lk2[of p] lk3[of p] p show ?thesis
        by (simp add: retimed_def del: lookup_file.simps split: option.splits)
    qed
    from fs2 rn fs3 1 2 show ?thesis by blast
  qed
  have C: "\<exists>fs'. store_piggyback_raw_data double_round_trip clk suffix s batch fs = Inr fs'
        \<and> (\<forall>h \<in> fst ` set batch.
              \<not> is_piggybacked_host_abandoned fs' ?status (PiggybackedHostSource h s))"
    if ne: "batch \<noteq> []"
    using A[OF ne, of double_round_trip] double_round_trip_floor[of ?t]
    by (meson not_le)
  from A[of rt] B C show ?thesis
    unfolding get_source_status_file_path_def get_piggybacked_file_path_def by blast
qed

text \<open>The definitions a concrete evaluation of the writer unfolds.\<close>

lemmas writer_defs =
  store_piggyback_raw_data_def store_status_file_of_def status_file_prepared_def
  tmp_path_of_def save_bytes_to_file_def get_piggybacked_file_path_def
  get_source_status_file_path_def utime_def rename_def Let_def

text \<open>
  A payload written at time 5 and the temporary file created at time 7, a stamp that
  the round trip leaves alone: both files end with the time stamps 7, and the pair is
  not abandoned.
\<close>

theorem payload_times_follow_status_file_witness:
  "store_piggyback_raw_data double_round_trip
     (\<lambda>p. if p = SourceStateFile ''.src.newx'' then 7 else 5)
     ''x'' ''src'' [(''tgt'', [''a''])] \<lparr>piggyback_dir = [], piggyback_source_dir = []\<rparr>
   = Inr \<lparr>piggyback_dir =
            [(''tgt'', [(''src'', \<lparr>data = [CHR ''a'', CHR 10], st_atime = 7, st_mtime = 7\<rparr>)])],
          piggyback_source_dir = [(''src'', \<lparr>data = [], st_atime = 7, st_mtime = 7\<rparr>)]\<rparr>
   \<and> \<not> is_piggybacked_host_abandoned
         \<lparr>piggyback_dir =
            [(''tgt'', [(''src'', \<lparr>data = [CHR ''a'', CHR 10], st_atime = 7, st_mtime = 7\<rparr>)])],
          piggyback_source_dir = [(''src'', \<lparr>data = [], st_atime = 7, st_mtime = 7\<rparr>)]\<rparr>
         (get_source_status_file_path ''src'') (get_piggybacked_file_path ''src'' ''tgt'')"
proof -
  have r: "double_round_trip 7 = 7"
    by (simp add: double_round_trip_def py_round_def Let_def)
  have e: "store_piggyback_raw_data double_round_trip
     (\<lambda>p. if p = SourceStateFile ''.src.newx'' then 7 else 5)
     ''x'' ''src'' [(''tgt'', [''a''])] \<lparr>piggyback_dir = [], piggyback_source_dir = []\<rparr>
   = Inr \<lparr>piggyback_dir =
            [(''tgt'', [(''src'', \<lparr>data = [CHR ''a'', CHR 10], st_atime = 7, st_mtime = 7\<rparr>)])],
          piggyback_source_dir = [(''src'', \<lparr>data = [], st_atime = 7, st_mtime = 7\<rparr>)]\<rparr>"
    by (simp add: writer_defs r)
  from payload_times_follow_status_file [where batch = "[(''tgt'', [''a''])]"
      and rt = double_round_trip
      and clk = "\<lambda>p. if p = SourceStateFile ''.src.newx'' then 7 else 5"
      and suffix = "''x''" and s = "''src''" and ps = "[]"
      and fs = "\<lparr>piggyback_dir = [], piggyback_source_dir = []\<rparr>"] e r
  show ?thesis by (auto simp: tmp_path_of_def get_source_status_file_path_def)
qed

text \<open>
  The claim as written has the payload files at exactly the status file's time stamps
  and never newer. A temporary file created at 1700000000.1234567 is reported by
  \<^verbatim>\<open>os.stat\<close> as the double 1700000000.123456716537..., of which \<^verbatim>\<open>os.utime\<close> stores
  the whole nanoseconds: the payload file ends at 1700000000.123456716, sixteen
  nanoseconds after the status file. A temporary file created at 1700000000.123456789
  is reported as the same double, which leaves the payload file 73 nanoseconds before
  the status file; one created at 1700000000.999999999 puts the payload file into the
  next whole second.
\<close>

theorem payload_newer_than_status_file_counterexample:
  "store_piggyback_raw_data double_round_trip (\<lambda>p. 1700000000.1234567)
     ''x'' ''src'' [(''tgt'', [''a''])] \<lparr>piggyback_dir = [], piggyback_source_dir = []\<rparr>
   = Inr \<lparr>piggyback_dir =
            [(''tgt'', [(''src'', \<lparr>data = [CHR ''a'', CHR 10],
                                    st_atime = 1700000000.123456716,
                                    st_mtime = 1700000000.123456716\<rparr>)])],
          piggyback_source_dir =
            [(''src'', \<lparr>data = [], st_atime = 1700000000.1234567,
                         st_mtime = 1700000000.1234567\<rparr>)]\<rparr>
   \<and> st_mtime \<lparr>data = [CHR ''a'', CHR 10], st_atime = 1700000000.123456716,
                st_mtime = 1700000000.123456716\<rparr>
       > st_mtime \<lparr>data = [], st_atime = 1700000000.1234567, st_mtime = 1700000000.1234567\<rparr>
   \<and> double_round_trip 1700000000.123456789 = 1700000000.123456716
   \<and> double_round_trip 1700000000.999999999 = 1700000001"
proof -
  have r: "double_round_trip 1700000000.1234567 = 1700000000.123456716"
    by (simp add: double_round_trip_def py_round_def Let_def)
  have b: "double_round_trip 1700000000.999999999 = 1700000001"
    by (simp add: double_round_trip_def py_round_def Let_def)
  have c: "double_round_trip 1700000000.123456789 = 1700000000.123456716"
    by (simp add: double_round_trip_def py_round_def Let_def)
  have e: "store_piggyback_raw_data double_round_trip (\<lambda>p. 1700000000.1234567)
     ''x'' ''src'' [(''tgt'', [''a''])] \<lparr>piggyback_dir = [], piggyback_source_dir = []\<rparr>
   = Inr \<lparr>piggyback_dir =
            [(''tgt'', [(''src'', \<lparr>data = [CHR ''a'', CHR 10],
                                    st_atime = 1700000000.123456716,
                                    st_mtime = 1700000000.123456716\<rparr>)])],
          piggyback_source_dir =
            [(''src'', \<lparr>data = [], st_atime = 1700000000.1234567,
                         st_mtime = 1700000000.1234567\<rparr>)]\<rparr>"
    using r by (simp add: writer_defs)
  from e b c show ?thesis by simp
qed

subsection \<open>Hidden entries\<close>

lemma files_in_not_hidden: "f \<in> set (files_in fs d) \<Longrightarrow> \<not> startswith (path_name f) ''.''"
  by (auto simp: files_in_def split: option.splits)

lemma tmp_path_hidden:
  "startswith (path_name (tmp_path_of (get_source_status_file_path s) suffix)) ''.''"
  by (simp add: tmp_path_of_def get_source_status_file_path_def startswith_def)

lemma update_existing_keys:
  "map_of al k = Some w \<Longrightarrow> map (\<lambda>e. F (fst e)) (AList.update k v al) = map (\<lambda>e. F (fst e)) al"
  by (induction al) (auto split: if_splits)

lemma update_hidden_key:
  "startswith n ''.'' \<Longrightarrow>
   filter (\<lambda>p. \<not> startswith (path_name p) ''.'')
       (map (\<lambda>e. SourceStateFile (fst e)) (AList.update n f al))
     = filter (\<lambda>p. \<not> startswith (path_name p) ''.'') (map (\<lambda>e. SourceStateFile (fst e)) al)"
  by (induction al) auto

lemma iterdir_put_existing:
  assumes "lookup_file fs p = Some g"
  shows "iterdir (put_file fs p f) d = iterdir fs d"
proof (cases p)
  case (PiggybackedHostSource h s)
  with assms obtain dd where dd: "map_of (piggyback_dir fs) h = Some dd" "map_of dd s = Some g"
    by (auto split: option.splits)
  show ?thesis
  proof (cases d)
    case PiggybackDir
    with PiggybackedHostSource dd show ?thesis
      by (simp add: update_existing_keys)
  next
    case (PiggybackedHostFolder h')
    with PiggybackedHostSource dd show ?thesis
      by (simp add: AList.update_conv' update_existing_keys)
  qed (simp_all add: PiggybackedHostSource)
next
  case (SourceStateFile s)
  with assms have "map_of (piggyback_source_dir fs) s = Some g" by simp
  with SourceStateFile show ?thesis
    by (cases d) (simp_all add: update_existing_keys)
qed (use assms in simp_all)

lemma utime_all_iterdir:
  "utime_all rt fs ps tms = Inr fs' \<Longrightarrow> iterdir fs' d = iterdir fs d"
proof (induction ps arbitrary: fs)
  case Nil
  then show ?case by simp
next
  case (Cons p ps)
  show ?case
  proof (cases "lookup_file fs p")
    case None
    with Cons.prems have "utime_all rt fs ps tms = Inr fs'"
      by (simp add: utime_def ENOENT_def)
    from Cons.IH[OF this] show ?thesis .
  next
    case (Some g)
    let ?fs1 = "put_file fs p (g\<lparr>st_atime := rt (fst tms), st_mtime := rt (snd tms)\<rparr>)"
    from Some Cons.prems have "utime_all rt ?fs1 ps tms = Inr fs'"
      by (simp add: utime_def)
    from Cons.IH[OF this] iterdir_put_existing[OF Some] show ?thesis by simp
  qed
qed

lemma status_file_prepared_listing:
  assumes "status_file_prepared rt clk suffix (SourceStateFile s) ps fs = Inr fs2"
  shows "files_in fs2 d = files_in fs d"
proof -
  let ?n = "''.'' @ s @ ''.new'' @ suffix"
  let ?fs1 = "put_file fs (SourceStateFile ?n)
                \<lparr>data = [], st_atime = clk (SourceStateFile ?n),
                 st_mtime = clk (SourceStateFile ?n)\<rparr>"
  from assms have "\<exists>tms. utime_all rt ?fs1 ps tms = Inr fs2"
    by (auto simp: status_file_prepared_def tmp_path_of_def Let_def split: option.splits
        simp del: put_file.simps lookup_file.simps)
  then have 1: "iterdir fs2 d = iterdir ?fs1 d"
    using utime_all_iterdir by blast
  have "startswith ?n ''.''" by (simp add: startswith_def)
  from update_hidden_key[OF this] have 2: "files_in ?fs1 d = files_in fs d"
    by (cases d) (simp_all add: files_in_def)
  from 1 2 show ?thesis by (simp add: files_in_def)
qed

text \<open>
  C10. Every enumeration (\<open>files_in\<close>, and through it the target folders, the source
  state files and the source host names) leaves out the entries whose name starts with
  a dot, and the name of the writer's temporary status file starts with a dot. In the
  state the writer produces before its final rename, the temporary file exists; every
  enumeration of that state returns what it returned before the writer created the
  file, so neither the temporary file nor a status file that is not yet in place is
  listed as a source state file, a source name or a target folder.
\<close>

theorem hidden_entries_never_listed:
  "(\<forall>f \<in> set (files_in fs d). \<not> startswith (path_name f) ''.'')
   \<and> (\<forall>f \<in> set (get_piggybacked_host_folders fs). \<not> startswith (path_name f) ''.'')
   \<and> (\<forall>f \<in> set (get_source_state_files fs). \<not> startswith (path_name f) ''.'')
   \<and> (\<forall>n \<in> set (get_source_hostnames fs h). \<not> startswith n ''.'')
   \<and> startswith (path_name (tmp_path_of (get_source_status_file_path s) suffix)) ''.''
   \<and> tmp_path_of (get_source_status_file_path s) suffix \<notin> set (get_source_state_files fs)
   \<and> path_name (tmp_path_of (get_source_status_file_path s) suffix)
        \<notin> set (get_source_hostnames fs h)
   \<and> (\<exists>fs2. status_file_prepared rt clk suffix (get_source_status_file_path s) ps fs = Inr fs2
         \<and> (\<exists>f. lookup_file fs2 (tmp_path_of (get_source_status_file_path s) suffix) = Some f
                \<and> data f = [])
         \<and> files_in fs2 d = files_in fs d
         \<and> get_piggybacked_host_folders fs2 = get_piggybacked_host_folders fs
         \<and> get_source_state_files fs2 = get_source_state_files fs
         \<and> get_source_hostnames fs2 h = get_source_hostnames fs h
         \<and> tmp_path_of (get_source_status_file_path s) suffix
              \<notin> set (get_source_state_files fs2)
         \<and> path_name (tmp_path_of (get_source_status_file_path s) suffix)
              \<notin> set (get_source_hostnames fs2 h))"
proof -
  let ?tmp = "tmp_path_of (get_source_status_file_path s) suffix"
  have a: "\<forall>f \<in> set (files_in fs d). \<not> startswith (path_name f) ''.''" for fs d
    using files_in_not_hidden by blast
  have b: "\<forall>n \<in> set (get_source_hostnames fs h). \<not> startswith n ''.''" for fs
    using a by (auto simp: get_source_hostnames_def split: option.splits)
  have c: "?tmp \<notin> set (get_source_state_files fs)
           \<and> path_name ?tmp \<notin> set (get_source_hostnames fs h)" for fs
    using a[of fs PiggybackSourceDir] b[of fs] tmp_path_hidden[of s suffix]
    unfolding get_source_state_files_def by blast
  from status_file_prepared_lookup[of rt clk suffix s ps fs] obtain fs2 where
    fs2: "status_file_prepared rt clk suffix (SourceStateFile s) ps fs = Inr fs2"
    and lk: "\<And>q. lookup_file fs2 q =
            (if q \<in> set ps
             then map_option
                    (retimed (rt (clk (tmp_path_of (SourceStateFile s) suffix)),
                              rt (clk (tmp_path_of (SourceStateFile s) suffix))))
                    (if q = tmp_path_of (SourceStateFile s) suffix
                     then Some \<lparr>data = [],
                                st_atime = clk (tmp_path_of (SourceStateFile s) suffix),
                                st_mtime = clk (tmp_path_of (SourceStateFile s) suffix)\<rparr>
                     else lookup_file fs q)
             else if q = tmp_path_of (SourceStateFile s) suffix
             then Some \<lparr>data = [], st_atime = clk (tmp_path_of (SourceStateFile s) suffix),
                        st_mtime = clk (tmp_path_of (SourceStateFile s) suffix)\<rparr>
             else lookup_file fs q)"
    by blast
  have ex: "\<exists>f. lookup_file fs2 ?tmp = Some f \<and> data f = []"
    using lk[of "tmp_path_of (SourceStateFile s) suffix"]
    by (simp add: get_source_status_file_path_def retimed_def del: lookup_file.simps)
  note same = status_file_prepared_listing[OF fs2]
  have l1: "get_piggybacked_host_folders fs2 = get_piggybacked_host_folders fs"
    and l2: "get_source_state_files fs2 = get_source_state_files fs"
    and l3: "get_source_hostnames fs2 h = get_source_hostnames fs h"
    by (simp_all add: get_piggybacked_host_folders_def get_source_state_files_def
        get_source_hostnames_def same split: option.splits)
  from fs2 have p: "status_file_prepared rt clk suffix (get_source_status_file_path s) ps fs
      = Inr fs2"
    by (simp add: get_source_status_file_path_def)
  show ?thesis
    using a[of fs d] a[of fs PiggybackDir] a[of fs PiggybackSourceDir] b[of fs]
      tmp_path_hidden[of s suffix] c[of fs] c[of fs2] p ex same[of d] l1 l2 l3
    unfolding get_piggybacked_host_folders_def get_source_state_files_def
    by blast
qed

text \<open>
  The writer prepares the status file of \<open>src\<close> beside an older status file of
  \<open>other\<close>: the temporary file is in the source directory and the listing still
  shows \<open>other\<close> only.
\<close>

theorem hidden_entries_never_listed_witness:
  "status_file_prepared double_round_trip (\<lambda>p. 7) ''x'' (get_source_status_file_path ''src'') []
     \<lparr>piggyback_dir = [],
      piggyback_source_dir = [(''other'', \<lparr>data = [], st_atime = 0, st_mtime = 0\<rparr>)]\<rparr>
   = Inr \<lparr>piggyback_dir = [],
          piggyback_source_dir =
            [(''other'', \<lparr>data = [], st_atime = 0, st_mtime = 0\<rparr>),
             (''.src.newx'', \<lparr>data = [], st_atime = 7, st_mtime = 7\<rparr>)]\<rparr>
   \<and> get_source_state_files
       \<lparr>piggyback_dir = [],
        piggyback_source_dir =
          [(''other'', \<lparr>data = [], st_atime = 0, st_mtime = 0\<rparr>),
           (''.src.newx'', \<lparr>data = [], st_atime = 7, st_mtime = 7\<rparr>)]\<rparr>
     = [SourceStateFile ''other'']"
proof -
  have e: "status_file_prepared double_round_trip (\<lambda>p. 7) ''x'' (get_source_status_file_path ''src'') []
     \<lparr>piggyback_dir = [],
      piggyback_source_dir = [(''other'', \<lparr>data = [], st_atime = 0, st_mtime = 0\<rparr>)]\<rparr>
   = Inr \<lparr>piggyback_dir = [],
          piggyback_source_dir =
            [(''other'', \<lparr>data = [], st_atime = 0, st_mtime = 0\<rparr>),
             (''.src.newx'', \<lparr>data = [], st_atime = 7, st_mtime = 7\<rparr>)]\<rparr>"
    by (simp add: status_file_prepared_def tmp_path_of_def get_source_status_file_path_def
        Let_def)
  have l: "get_source_state_files
     \<lparr>piggyback_dir = [],
      piggyback_source_dir = [(''other'', \<lparr>data = [], st_atime = 0, st_mtime = 0\<rparr>)]\<rparr>
     = [SourceStateFile ''other'']"
    by (simp add: get_source_state_files_def files_in_def startswith_def)
  from hidden_entries_never_listed [where fs =
     "\<lparr>piggyback_dir = [],
      piggyback_source_dir = [(''other'', \<lparr>data = [], st_atime = 0, st_mtime = 0\<rparr>)]\<rparr>"
     and s = "''src''" and suffix = "''x''" and rt = double_round_trip and clk = "\<lambda>p. 7"
     and ps = "[]" and d = PiggybackSourceDir and h = None] e l
  show ?thesis by simp
qed

subsection \<open>Round trip\<close>

lemma split_nl_line:
  "CHR 10 \<notin> set l \<Longrightarrow> split_nl cur (l @ CHR 10 # rest) = (rev cur @ l) # split_nl [] rest"
  by (induction l arbitrary: cur) auto

lemma split_nl_join:
  "lines \<noteq> [] \<Longrightarrow> \<forall>l \<in> set lines. CHR 10 \<notin> set l \<Longrightarrow>
   split_nl [] (bytes_join [CHR 10] lines @ [CHR 10]) = lines"
proof (induction "[CHR 10]" lines rule: bytes_join.induct)
  case 1
  then show ?case by simp
next
  case (2 x)
  then show ?case using split_nl_line[of x "[]" "[]"] by simp
next
  case (3 x y ys)
  then show ?case using split_nl_line[of x "[]" "bytes_join [CHR 10] (y # ys) @ [CHR 10]"]
    by simp
qed

lemma file_infos_of_sources:
  "file_infos_of clk fs h m srcs = Inr fis \<Longrightarrow>
   map source fis = srcs \<and> map file_path fis = map (\<lambda>s. get_piggybacked_file_path s h) srcs"
proof (induction srcs arbitrary: fis)
  case Nil
  then show ?case by simp
next
  case (Cons s srcs)
  then show ?case
    by (auto simp: get_piggyback_processed_file_info_def mk_PiggybackFileInfo_def Let_def
        split: sum.splits option.splits if_splits)
qed

lemma read_file_infos_member:
  "read_file_infos load fis = Inr ds \<Longrightarrow> fi \<in> set fis \<Longrightarrow> load (file_path fi) = Inr b \<Longrightarrow>
   \<lparr>info = fi, raw_data = b\<rparr> \<in> set ds"
proof (induction fis arbitrary: ds)
  case Nil
  then show ?case by simp
next
  case (Cons a fis)
  then show ?case
    by (auto simp: read_file_info_def split: sum.splits)
qed

lemma source_listed:
  assumes "lookup_file fs (PiggybackedHostSource h s) = Some f" and "\<not> startswith s ''.''"
  shows "s \<in> set (get_source_hostnames fs (Some h))"
proof -
  from assms(1) obtain d where d: "map_of (piggyback_dir fs) h = Some d" "map_of d s = Some f"
    by (auto split: option.splits)
  from d(2) have "(s, f) \<in> set d" by (rule map_of_SomeD)
  with d(1) assms(2) show ?thesis
    by (force simp: get_source_hostnames_def files_in_def)
qed

lemma accessor_returns_stored:
  assumes ex: "lookup_file fs (PiggybackedHostSource h s) = Some f"
    and h: "h \<noteq> []" and s: "\<not> startswith s ''.''"
    and ld: "load (PiggybackedHostSource h s) = Inr (data f)"
    and res: "get_piggyback_raw_data load re clk fs (Some h) ts = Inr ds"
  shows "\<exists>d \<in> set ds. source (info d) = s \<and> file_path (info d) = PiggybackedHostSource h s
            \<and> raw_data d = data f"
proof -
  let ?srcs = "get_source_hostnames fs (Some h)"
  from res h obtain fis where fis: "get_piggyback_processed_file_infos re clk fs h ts = Inr fis"
    by (auto simp: get_piggyback_raw_data_def split: sum.splits)
  then obtain m where "file_infos_of clk fs h m ?srcs = Inr fis"
    by (auto simp: get_piggyback_processed_file_infos_def Let_def split: sum.splits)
  from file_infos_of_sources[OF this] have
    m: "map source fis = ?srcs" "map file_path fis = map (\<lambda>s. get_piggybacked_file_path s h) ?srcs"
    by auto
  from source_listed[OF ex s] m(1) obtain fi where fi: "fi \<in> set fis" "source fi = s"
    by (metis (no_types, lifting) image_iff list.set_map)
  from fi(1) obtain i where i: "i < length fis" "fis ! i = fi" by (auto simp: in_set_conv_nth)
  from m i have "file_path fi = get_piggybacked_file_path (source fi) h"
    by (metis length_map nth_map)
  with fi(2) have fp: "file_path fi = PiggybackedHostSource h s"
    by (simp add: get_piggybacked_file_path_def)
  from fi(1) have "fis \<noteq> []" by auto
  with res h fis have "read_file_infos load fis = Inr ds"
    by (simp add: get_piggyback_raw_data_def)
  from read_file_infos_member[OF this fi(1), of "data f"] ld fp
  have "\<lparr>info = fi, raw_data = data f\<rparr> \<in> set ds" by simp
  with fi(2) fp show ?thesis by force
qed

text \<open>
  C7 (as amended). For a non-empty batch with distinct targets, the payload file of
  each target holds the lines joined by newline with one trailing newline. When the
  target name is not empty, the source name does not start with a dot and the reader
  returns the stored bytes of existing files, every result of the accessor for the
  target has an entry for the source whose raw bytes are that content. The stored
  content determines the lines when the list of lines is not empty and no line holds a
  newline byte.
\<close>

theorem payload_round_trip:
  "(batch \<noteq> [] \<and> distinct (map fst batch) \<longrightarrow>
     (\<exists>fs'. store_piggyback_raw_data rt clk suffix s batch fs = Inr fs'
        \<and> (\<forall>e \<in> set batch.
              (\<exists>f. lookup_file fs' (get_piggybacked_file_path s (fst e)) = Some f
                 \<and> data f = bytes_join [CHR 10] (snd e) @ [CHR 10])
              \<and> (fst e \<noteq> [] \<and> \<not> startswith s ''.''
                  \<and> (\<forall>p f. lookup_file fs' p = Some f \<longrightarrow> load p = Inr (data f)) \<longrightarrow>
                  (\<forall>ds. get_piggyback_raw_data load re clk' fs' (Some (fst e)) ts = Inr ds \<longrightarrow>
                     (\<exists>d \<in> set ds. source (info d) = s
                        \<and> file_path (info d) = get_piggybacked_file_path s (fst e)
                        \<and> raw_data d = bytes_join [CHR 10] (snd e) @ [CHR 10]))))))
   \<and> (xs \<noteq> [] \<and> ys \<noteq> [] \<and> (\<forall>l \<in> set xs \<union> set ys. CHR 10 \<notin> set l)
        \<and> bytes_join [CHR 10] xs @ [CHR 10] = bytes_join [CHR 10] ys @ [CHR 10]
      \<longrightarrow> xs = ys)"
proof -
  let ?t = "clk (tmp_path_of (SourceStateFile s) suffix)"
  have A: "\<exists>fs'. store_piggyback_raw_data rt clk suffix s batch fs = Inr fs'
        \<and> (\<forall>e \<in> set batch.
              (\<exists>f. lookup_file fs' (PiggybackedHostSource (fst e) s) = Some f
                 \<and> data f = bytes_join [CHR 10] (snd e) @ [CHR 10])
              \<and> (fst e \<noteq> [] \<and> \<not> startswith s ''.''
                  \<and> (\<forall>p f. lookup_file fs' p = Some f \<longrightarrow> load p = Inr (data f)) \<longrightarrow>
                  (\<forall>ds. get_piggyback_raw_data load re clk' fs' (Some (fst e)) ts = Inr ds \<longrightarrow>
                     (\<exists>d \<in> set ds. source (info d) = s
                        \<and> file_path (info d) = PiggybackedHostSource (fst e) s
                        \<and> raw_data d = bytes_join [CHR 10] (snd e) @ [CHR 10]))))"
    if ne: "batch \<noteq> []" and di: "distinct (map fst batch)"
  proof -
    from store_piggyback_raw_data_lookup[OF ne, of rt clk suffix s fs] obtain fs' where
      fs': "store_piggyback_raw_data rt clk suffix s batch fs = Inr fs'"
      and lk: "\<And>q. lookup_file fs' q =
           (if q = SourceStateFile s then Some \<lparr>data = [], st_atime = ?t, st_mtime = ?t\<rparr>
            else if q = tmp_path_of (SourceStateFile s) suffix then None
            else if q \<in> (\<lambda>e. PiggybackedHostSource (fst e) s) ` set batch
            then map_option (retimed (rt ?t, rt ?t))
                   (lookup_file (fst (store_payloads clk s batch fs [])) q)
            else lookup_file (fst (store_payloads clk s batch fs [])) q)"
      by blast
    have each: "(\<exists>f. lookup_file fs' (PiggybackedHostSource (fst e) s) = Some f
                 \<and> data f = bytes_join [CHR 10] (snd e) @ [CHR 10])
              \<and> (fst e \<noteq> [] \<and> \<not> startswith s ''.''
                  \<and> (\<forall>p f. lookup_file fs' p = Some f \<longrightarrow> load p = Inr (data f)) \<longrightarrow>
                  (\<forall>ds. get_piggyback_raw_data load re clk' fs' (Some (fst e)) ts = Inr ds \<longrightarrow>
                     (\<exists>d \<in> set ds. source (info d) = s
                        \<and> file_path (info d) = PiggybackedHostSource (fst e) s
                        \<and> raw_data d = bytes_join [CHR 10] (snd e) @ [CHR 10])))"
      if e: "e \<in> set batch" for e
    proof -
      let ?p = "PiggybackedHostSource (fst e) s"
      let ?g = "\<lparr>data = bytes_join [CHR 10] (snd e) @ [CHR 10],
                 st_atime = clk ?p, st_mtime = clk ?p\<rparr>"
      from e have "(fst e, snd e) \<in> set batch" by simp
      from store_payloads_written[OF di this, of clk s fs "[]"]
      have g: "lookup_file (fst (store_payloads clk s batch fs [])) ?p = Some ?g" .
      have "?p \<in> (\<lambda>e. PiggybackedHostSource (fst e) s) ` set batch" using e by auto
      with lk[of ?p] g have f: "lookup_file fs' ?p = Some (retimed (rt ?t, rt ?t) ?g)"
        by (simp add: tmp_path_of_status(1) del: lookup_file.simps)
      have d: "data (retimed (rt ?t, rt ?t) ?g) = bytes_join [CHR 10] (snd e) @ [CHR 10]"
        by (simp add: retimed_def)
      have "\<exists>d \<in> set ds. source (info d) = s \<and> file_path (info d) = ?p
                        \<and> raw_data d = bytes_join [CHR 10] (snd e) @ [CHR 10]"
        if "fst e \<noteq> []" "\<not> startswith s ''.''"
          "\<forall>p f. lookup_file fs' p = Some f \<longrightarrow> load p = Inr (data f)"
          "get_piggyback_raw_data load re clk' fs' (Some (fst e)) ts = Inr ds" for ds
      proof -
        from that(3) f have "load ?p = Inr (data (retimed (rt ?t, rt ?t) ?g))" by blast
        from accessor_returns_stored[OF f that(1) that(2) this that(4)] d
        show ?thesis by simp
      qed
      with f d show ?thesis by blast
    qed
    from fs' each show ?thesis by blast
  qed
  have B: "xs = ys"
    if "xs \<noteq> []" "ys \<noteq> []" "\<forall>l \<in> set xs \<union> set ys. CHR 10 \<notin> set l"
      "bytes_join [CHR 10] xs @ [CHR 10] = bytes_join [CHR 10] ys @ [CHR 10]"
  proof -
    have "xs = split_nl [] (bytes_join [CHR 10] xs @ [CHR 10])"
      using that(1,3) split_nl_join[of xs] by simp
    also have "\<dots> = split_nl [] (bytes_join [CHR 10] ys @ [CHR 10])"
      using that(4) by simp
    also have "\<dots> = ys" using that(2,3) split_nl_join[of ys] by simp
    finally show ?thesis .
  qed
  from A B show ?thesis unfolding get_piggybacked_file_path_def by blast
qed

text \<open>Two lines for one target, written and read back.\<close>

theorem payload_round_trip_witness:
  "store_piggyback_raw_data double_round_trip (\<lambda>p. 5) ''x'' ''src'' [(''tgt'', [''a'', ''b''])]
     \<lparr>piggyback_dir = [], piggyback_source_dir = []\<rparr>
   = Inr \<lparr>piggyback_dir =
            [(''tgt'', [(''src'', \<lparr>data = [CHR ''a'', CHR 10, CHR ''b'', CHR 10],
                                    st_atime = 5, st_mtime = 5\<rparr>)])],
          piggyback_source_dir = [(''src'', \<lparr>data = [], st_atime = 5, st_mtime = 5\<rparr>)]\<rparr>
   \<and> map_sum id (map (\<lambda>d. (source (info d), valid (info d), raw_data d)))
       (get_piggyback_raw_data
          (\<lambda>p. if p = PiggybackedHostSource ''tgt'' ''src''
                then Inr [CHR ''a'', CHR 10, CHR ''b'', CHR 10] else Inr [])
          (\<lambda>p s. Some False) (\<lambda>p. 6)
          \<lparr>piggyback_dir =
            [(''tgt'', [(''src'', \<lparr>data = [CHR ''a'', CHR 10, CHR ''b'', CHR 10],
                                    st_atime = 5, st_mtime = 5\<rparr>)])],
           piggyback_source_dir = [(''src'', \<lparr>data = [], st_atime = 5, st_mtime = 5\<rparr>)]\<rparr>
          (Some ''tgt'') [(None, ''max_cache_age'', 3600)])
     = Inr [(''src'', True, [CHR ''a'', CHR 10, CHR ''b'', CHR 10])]"
proof -
  have e: "store_piggyback_raw_data double_round_trip (\<lambda>p. 5) ''x'' ''src'' [(''tgt'', [''a'', ''b''])]
     \<lparr>piggyback_dir = [], piggyback_source_dir = []\<rparr>
   = Inr \<lparr>piggyback_dir =
            [(''tgt'', [(''src'', \<lparr>data = [CHR ''a'', CHR 10, CHR ''b'', CHR 10],
                                    st_atime = 5, st_mtime = 5\<rparr>)])],
          piggyback_source_dir = [(''src'', \<lparr>data = [], st_atime = 5, st_mtime = 5\<rparr>)]\<rparr>"
    by (simp add: writer_defs double_round_trip_def py_round_def)
  have r: "map_sum id (map (\<lambda>d. (source (info d), valid (info d), raw_data d)))
       (get_piggyback_raw_data
          (\<lambda>p. if p = PiggybackedHostSource ''tgt'' ''src''
                then Inr [CHR ''a'', CHR 10, CHR ''b'', CHR 10] else Inr [])
          (\<lambda>p s. Some False) (\<lambda>p. 6)
          \<lparr>piggyback_dir =
            [(''tgt'', [(''src'', \<lparr>data = [CHR ''a'', CHR 10, CHR ''b'', CHR 10],
                                    st_atime = 5, st_mtime = 5\<rparr>)])],
           piggyback_source_dir = [(''src'', \<lparr>data = [], st_atime = 5, st_mtime = 5\<rparr>)]\<rparr>
          (Some ''tgt'') [(None, ''max_cache_age'', 3600)])
     = Inr [(''src'', True, [CHR ''a'', CHR 10, CHR ''b'', CHR 10])]"
    by (simp add: eval_defs)
  from payload_round_trip [where batch = "[(''tgt'', [''a'', ''b''])]" and clk = "\<lambda>p. 5"
      and rt = double_round_trip
      and suffix = "''x''" and s = "''src''"
      and fs = "\<lparr>piggyback_dir = [], piggyback_source_dir = []\<rparr>"
      and xs = "[''a'']" and ys = "[''a'']"] e r
  show ?thesis by simp
qed

text \<open>
  The claim as written has the original lines recoverable for every non-empty batch.
  The batches with no line and with one empty line store the same bytes, and so do a
  line holding a newline and the two lines it splits into. A source whose name starts
  with a dot is written but never listed, so the accessor returns nothing for it.
\<close>

theorem lines_not_recoverable_counterexample:
  "store_piggyback_raw_data double_round_trip (\<lambda>p. 5) ''x'' ''src'' [(''tgt'', [])]
       \<lparr>piggyback_dir = [], piggyback_source_dir = []\<rparr>
     = store_piggyback_raw_data double_round_trip (\<lambda>p. 5) ''x'' ''src'' [(''tgt'', [[]])]
         \<lparr>piggyback_dir = [], piggyback_source_dir = []\<rparr>
   \<and> store_piggyback_raw_data double_round_trip (\<lambda>p. 5) ''x'' ''src'' [(''tgt'', [[CHR ''a'', CHR 10, CHR ''b'']])]
       \<lparr>piggyback_dir = [], piggyback_source_dir = []\<rparr>
     = store_piggyback_raw_data double_round_trip (\<lambda>p. 5) ''x'' ''src'' [(''tgt'', [''a'', ''b''])]
         \<lparr>piggyback_dir = [], piggyback_source_dir = []\<rparr>
   \<and> store_piggyback_raw_data double_round_trip (\<lambda>p. 5) ''x'' ''.src'' [(''tgt'', [''a''])]
       \<lparr>piggyback_dir = [], piggyback_source_dir = []\<rparr>
     = Inr \<lparr>piggyback_dir =
              [(''tgt'', [(''.src'', \<lparr>data = [CHR ''a'', CHR 10], st_atime = 5, st_mtime = 5\<rparr>)])],
            piggyback_source_dir = [(''.src'', \<lparr>data = [], st_atime = 5, st_mtime = 5\<rparr>)]\<rparr>
   \<and> get_piggyback_raw_data (\<lambda>p. Inr [CHR ''a'', CHR 10]) (\<lambda>p s. Some False) (\<lambda>p. 6)
       \<lparr>piggyback_dir =
              [(''tgt'', [(''.src'', \<lparr>data = [CHR ''a'', CHR 10], st_atime = 5, st_mtime = 5\<rparr>)])],
            piggyback_source_dir = [(''.src'', \<lparr>data = [], st_atime = 5, st_mtime = 5\<rparr>)]\<rparr>
       (Some ''tgt'') [(None, ''max_cache_age'', 3600)] = Inr []"
  by (simp add: writer_defs eval_defs double_round_trip_def py_round_def)

subsection \<open>Removal of a target folder\<close>

text \<open>
  C9. The removal of a folder that is not empty (here: it holds a hidden file) is
  swallowed. The removal of a folder that has vanished since it was listed raises
  \<^verbatim>\<open>FileNotFoundError\<close>, whose errno is not \<^verbatim>\<open>ENOTEMPTY\<close>: the sweep re-raises it.
\<close>

theorem rmdir_missing_folder_propagates:
  "cleanup_old_piggybacked_files (\<lambda>p. 0) [(PiggybackedHostFolder ''gone'', [], Map.empty)]
     \<lparr>piggyback_dir = [], piggyback_source_dir = []\<rparr>
   = Inl (OSError ENOENT ''No such file or directory'')
   \<and> cleanup_old_piggybacked_files (\<lambda>p. 0) [(PiggybackedHostFolder ''busy'', [], Map.empty)]
     \<lparr>piggyback_dir = [(''busy'', [(''.new'', \<lparr>data = [], st_atime = 0, st_mtime = 0\<rparr>)])],
      piggyback_source_dir = []\<rparr>
   = Inr \<lparr>piggyback_dir = [(''busy'', [(''.new'', \<lparr>data = [], st_atime = 0, st_mtime = 0\<rparr>)])],
      piggyback_source_dir = []\<rparr>"
  by (simp add: ENOENT_def ENOTEMPTY_def)

subsection \<open>Status file retention\<close>







lemma remove_piggyback_file_cases:
  "remove_piggyback_file fs p =
     (case lookup_file fs p of None \<Rightarrow> Inr (False, fs) | Some f \<Rightarrow> Inr (True, drop_file fs p))"
  by (simp add: remove_piggyback_file_def unlink_def ENOENT_def split: option.splits)





text \<open>The definitions a concrete evaluation of the sweep unfolds.\<close>

lemmas cleanup_defs =
  cleanup_piggyback_files_def cleanup_old_source_status_files_def
  get_piggybacked_hosts_settings_def get_piggybacked_host_folders_def get_source_state_files_def
  files_in_def startswith_def TimeSettingsMap_init_def setdefault_def
  time_since_last_modification_def max_cache_age_def validity_period_def
  TimeSettingsMap_match_def remove_piggyback_file_def unlink_def ENOENT_def ENOTEMPTY_def Let_def



subsection \<open>Payload retention\<close>

lemma outdated_cong:
  "lookup_file fs q = lookup_file fs2 q \<Longrightarrow> outdated clk ts dst fs q = outdated clk ts dst fs2 q"
  by (simp add: outdated_def)

lemma outdated_missing: "lookup_file fs q = None \<Longrightarrow> \<not> outdated clk ts dst fs q"
  by (simp add: outdated_def)

lemma remove_old_sources_step:
  assumes "remove_old_sources clk ts dst (p # ps) fs = Inr fs'"
  shows "remove_old_sources clk ts dst ps (if outdated clk ts dst fs p then drop_file fs p else fs)
           = Inr fs'
         \<and> (\<forall>f. lookup_file fs p = Some f \<longrightarrow>
               (\<exists>mca. max_cache_age ts (path_name p) dst = Inr mca))"
proof (cases "lookup_file fs p")
  case None
  with assms show ?thesis
    by (simp add: time_since_last_modification_def outdated_def)
next
  case (Some f)
  with assms obtain mca where mca: "max_cache_age ts (path_name p) dst = Inr mca"
    by (auto simp: time_since_last_modification_def split: sum.splits)
  with assms Some show ?thesis
    by (auto simp: time_since_last_modification_def outdated_def Let_def
          remove_piggyback_file_cases not_less
        simp del: drop_file.simps split: if_splits)
qed

lemma remove_old_sources_lookup:
  "remove_old_sources clk ts dst ps fs = Inr fs' \<Longrightarrow>
   lookup_file fs' q = (if q \<in> set ps \<and> outdated clk ts dst fs q then None else lookup_file fs q)"
proof (induction ps arbitrary: fs)
  case Nil
  then show ?case by simp
next
  case (Cons p ps)
  let ?fs1 = "if outdated clk ts dst fs p then drop_file fs p else fs"
  from remove_old_sources_step[OF Cons.prems]
  have rec: "remove_old_sources clk ts dst ps ?fs1 = Inr fs'" by simp
  have lk1: "lookup_file ?fs1 r = (if r = p \<and> outdated clk ts dst fs p then None else lookup_file fs r)"
    for r by (simp add: lookup_drop_file del: drop_file.simps)
  have od: "outdated clk ts dst ?fs1 q = (if q = p then False else outdated clk ts dst fs q)"
    if "outdated clk ts dst fs p"
    using that lk1[of q] by (auto simp: outdated_def)
  from Cons.IH[OF rec] have
    "lookup_file fs' q = (if q \<in> set ps \<and> outdated clk ts dst ?fs1 q then None else lookup_file ?fs1 q)" .
  then show ?case
    using lk1[of q] od by (cases "outdated clk ts dst fs p") (auto simp del: drop_file.simps)
qed

lemma remove_old_sources_resolved:
  "remove_old_sources clk ts dst ps fs = Inr fs' \<Longrightarrow> p \<in> set ps \<Longrightarrow>
   lookup_file fs p = Some f \<Longrightarrow> \<exists>mca. max_cache_age ts (path_name p) dst = Inr mca"
proof (induction ps arbitrary: fs)
  case Nil
  then show ?case by simp
next
  case (Cons a ps)
  let ?fs1 = "if outdated clk ts dst fs a then drop_file fs a else fs"
  from remove_old_sources_step[OF Cons.prems(1)]
  have rec: "remove_old_sources clk ts dst ps ?fs1 = Inr fs'"
    and hd: "\<forall>f. lookup_file fs a = Some f \<longrightarrow>
               (\<exists>mca. max_cache_age ts (path_name a) dst = Inr mca)" by simp_all
  show ?case
  proof (cases "p = a")
    case True
    with hd Cons.prems(3) show ?thesis by blast
  next
    case False
    with Cons.prems(2) have p: "p \<in> set ps" by simp
    from False Cons.prems(3) have "lookup_file ?fs1 p = Some f"
      by (simp add: lookup_drop_file del: drop_file.simps)
    from Cons.IH[OF rec p this] show ?thesis .
  qed
qed

lemma rmdir_lookup: "rmdir fs p = Inr fs2 \<Longrightarrow> lookup_file fs2 q = lookup_file fs q"
proof (cases p)
  case (PiggybackedHostFolder h)
  assume r: "rmdir fs p = Inr fs2"
  with PiggybackedHostFolder have d: "map_of (piggyback_dir fs) h = Some []"
    and fs2: "fs2 = fs\<lparr>piggyback_dir := AList.delete h (piggyback_dir fs)\<rparr>"
    by (auto split: option.splits if_splits)
  show ?thesis
    using d fs2 by (cases q) (auto simp: AList.delete_conv split: option.splits)
qed simp_all

lemma cleanup_old_piggybacked_files_step:
  assumes "cleanup_old_piggybacked_files clk ((folder, srcs, ts) # rest) fs = Inr fs'"
  shows "\<exists>fs1 fs2. remove_old_sources clk ts (path_name folder) srcs fs = Inr fs1
           \<and> (\<forall>q. lookup_file fs2 q = lookup_file fs1 q)
           \<and> cleanup_old_piggybacked_files clk rest fs2 = Inr fs'"
proof -
  from assms obtain fs1 where
    fs1: "remove_old_sources clk ts (path_name folder) srcs fs = Inr fs1"
    by (auto split: sum.splits)
  show ?thesis
  proof (cases "rmdir fs1 folder")
    case (Inr fs2)
    with assms fs1 have "cleanup_old_piggybacked_files clk rest fs2 = Inr fs'" by simp
    with fs1 rmdir_lookup[OF Inr] show ?thesis by blast
  next
    case (Inl e)
    with assms fs1 have "cleanup_old_piggybacked_files clk rest fs1 = Inr fs'"
      by (cases e) (auto split: if_splits)
    with fs1 show ?thesis by blast
  qed
qed

lemma cleanup_old_piggybacked_files_lookup:
  "cleanup_old_piggybacked_files clk hs fs = Inr fs' \<Longrightarrow>
   lookup_file fs' q =
     (if \<exists>e \<in> set hs. q \<in> set (fst (snd e))
            \<and> outdated clk (snd (snd e)) (path_name (fst e)) fs q
      then None else lookup_file fs q)"
proof (induction hs arbitrary: fs)
  case Nil
  then show ?case by simp
next
  case (Cons a hs)
  obtain folder srcs ts where a: "a = (folder, srcs, ts)" by (cases a)
  from cleanup_old_piggybacked_files_step[OF Cons.prems[unfolded a]] obtain fs1 fs2 where
    fs1: "remove_old_sources clk ts (path_name folder) srcs fs = Inr fs1"
    and fs2: "\<And>r. lookup_file fs2 r = lookup_file fs1 r"
    and rec: "cleanup_old_piggybacked_files clk hs fs2 = Inr fs'" by blast
  have lk2: "lookup_file fs2 q =
      (if q \<in> set srcs \<and> outdated clk ts (path_name folder) fs q then None else lookup_file fs q)"
    using fs2[of q] remove_old_sources_lookup[OF fs1, of q] by simp
  have od: "outdated clk t d fs2 q =
      (if q \<in> set srcs \<and> outdated clk ts (path_name folder) fs q then False
       else outdated clk t d fs q)" for t d
    using lk2 by (auto simp: outdated_def)
  from Cons.IH[OF rec] have
    "lookup_file fs' q =
     (if \<exists>e \<in> set hs. q \<in> set (fst (snd e))
            \<and> outdated clk (snd (snd e)) (path_name (fst e)) fs2 q
      then None else lookup_file fs2 q)" .
  then show ?case using lk2 od a by auto
qed

lemma cleanup_old_piggybacked_files_resolved:
  "cleanup_old_piggybacked_files clk hs fs = Inr fs' \<Longrightarrow> e \<in> set hs \<Longrightarrow>
   p \<in> set (fst (snd e)) \<Longrightarrow> lookup_file fs p = Some f \<Longrightarrow>
   \<forall>e' \<in> set hs. p \<in> set (fst (snd e')) \<longrightarrow> e' = e \<Longrightarrow>
   \<exists>mca. max_cache_age (snd (snd e)) (path_name p) (path_name (fst e)) = Inr mca"
proof (induction hs arbitrary: fs)
  case Nil
  then show ?case by simp
next
  case (Cons a hs)
  obtain folder srcs ts where a: "a = (folder, srcs, ts)" by (cases a)
  from cleanup_old_piggybacked_files_step[OF Cons.prems(1)[unfolded a]] obtain fs1 fs2 where
    fs1: "remove_old_sources clk ts (path_name folder) srcs fs = Inr fs1"
    and fs2: "\<And>r. lookup_file fs2 r = lookup_file fs1 r"
    and rec: "cleanup_old_piggybacked_files clk hs fs2 = Inr fs'" by blast
  show ?case
  proof (cases "e = a")
    case True
    with a Cons.prems(3,4) remove_old_sources_resolved[OF fs1, of p f] show ?thesis by simp
  next
    case False
    with Cons.prems(2) have e: "e \<in> set hs" by simp
    from False Cons.prems(5) a have "p \<notin> set srcs" by auto
    with fs2[of p] remove_old_sources_lookup[OF fs1, of p] Cons.prems(4)
    have "lookup_file fs2 p = Some f" by simp
    from Cons.IH[OF rec e Cons.prems(3) this] Cons.prems(5) show ?thesis by simp
  qed
qed

lemma hosts_settings_of_entries:
  "hosts_settings_of re fs ts folders = Inr hs \<Longrightarrow> e \<in> set hs \<Longrightarrow>
   fst e \<in> set folders \<and> fst (snd e) = files_in fs (fst e)
   \<and> TimeSettingsMap_init re (map path_name (files_in fs (fst e))) (path_name (fst e)) ts
       = Inr (snd (snd e))"
proof (induction folders arbitrary: hs)
  case Nil
  then show ?case by simp
next
  case (Cons a folders)
  then show ?case by (auto simp: Let_def split: sum.splits)
qed

lemma listed_entries_unique:
  assumes hs: "get_piggybacked_hosts_settings re fs ts = Inr hs"
    and e: "e \<in> set hs" "p \<in> set (fst (snd e))"
    and e': "e' \<in> set hs" "p \<in> set (fst (snd e'))"
  shows "e' = e"
proof -
  note ent = hosts_settings_of_entries[OF hs[unfolded get_piggybacked_hosts_settings_def]]
  from ent[OF e(1)] ent[OF e'(1)] have
    f: "fst e \<in> set (get_piggybacked_host_folders fs)"
       "fst e' \<in> set (get_piggybacked_host_folders fs)"
    and s: "fst (snd e) = files_in fs (fst e)" "fst (snd e') = files_in fs (fst e')"
    and m: "TimeSettingsMap_init re (map path_name (files_in fs (fst e))) (path_name (fst e)) ts
              = Inr (snd (snd e))"
           "TimeSettingsMap_init re (map path_name (files_in fs (fst e'))) (path_name (fst e')) ts
              = Inr (snd (snd e'))"
    by simp_all
  from f obtain h h' where h: "fst e = PiggybackedHostFolder h" "fst e' = PiggybackedHostFolder h'"
    by (auto simp: get_piggybacked_host_folders_def files_in_def)
  from e(2) s(1) h(1) obtain s1 where "p = PiggybackedHostSource h s1"
    by (auto simp: files_in_def split: option.splits)
  moreover from e'(2) s(2) h(2) obtain s2 where "p = PiggybackedHostSource h' s2"
    by (auto simp: files_in_def split: option.splits)
  ultimately have "h' = h" by simp
  with h have "fst e' = fst e" by simp
  with s m have "fst (snd e') = fst (snd e)" "snd (snd e') = snd (snd e)" by simp_all
  with \<open>fst e' = fst e\<close> show ?thesis by (simp add: prod_eq_iff)
qed

text \<open>
  C4. When the payload-retention pass returns, a path is missing afterwards exactly
  when it was missing before or some visited (target, source) pair found it outdated;
  every other file is as before. For the settings the sweep computes from the
  directory listing, every visited pair whose payload file exists has a resolved
  \<open>max_cache_age\<close>, and the file is deleted exactly when its age strictly exceeds both
  the resolved \<open>max_cache_age\<close> and the resolved \<open>validity_period\<close> (0 when
  unresolved); a file within either window is kept unchanged.
\<close>

theorem payload_retention:
  "(cleanup_old_piggybacked_files clk hs fs = Inr fs' \<longrightarrow>
      (\<forall>q. lookup_file fs' q =
         (if \<exists>e \<in> set hs. q \<in> set (fst (snd e))
                \<and> outdated clk (snd (snd e)) (path_name (fst e)) fs q
          then None else lookup_file fs q)))
   \<and> (get_piggybacked_hosts_settings re fs rules = Inr hs
        \<and> cleanup_old_piggybacked_files clk hs fs = Inr fs' \<longrightarrow>
      (\<forall>e \<in> set hs. \<forall>p \<in> set (fst (snd e)). \<forall>f. lookup_file fs p = Some f \<longrightarrow>
         (\<exists>mca. max_cache_age (snd (snd e)) (path_name p) (path_name (fst e)) = Inr mca
            \<and> (lookup_file fs' p = None \<longleftrightarrow>
                 clk p - st_mtime f > real_of_int mca
                 \<and> clk p - st_mtime f
                     > real_of_int (case validity_period (snd (snd e)) (path_name p)
                                           (path_name (fst e)) of
                                      None \<Rightarrow> 0 | Some v \<Rightarrow> v))
            \<and> (lookup_file fs' p \<noteq> None \<longrightarrow> lookup_file fs' p = Some f))))"
proof -
  have A: "\<forall>q. lookup_file fs' q =
         (if \<exists>e \<in> set hs. q \<in> set (fst (snd e))
                \<and> outdated clk (snd (snd e)) (path_name (fst e)) fs q
          then None else lookup_file fs q)"
    if "cleanup_old_piggybacked_files clk hs fs = Inr fs'"
    using cleanup_old_piggybacked_files_lookup[OF that] by blast
  have B: "\<exists>mca. max_cache_age (snd (snd e)) (path_name p) (path_name (fst e)) = Inr mca
            \<and> (lookup_file fs' p = None \<longleftrightarrow>
                 clk p - st_mtime f > real_of_int mca
                 \<and> clk p - st_mtime f
                     > real_of_int (case validity_period (snd (snd e)) (path_name p)
                                           (path_name (fst e)) of
                                      None \<Rightarrow> 0 | Some v \<Rightarrow> v))
            \<and> (lookup_file fs' p \<noteq> None \<longrightarrow> lookup_file fs' p = Some f)"
    if hs: "get_piggybacked_hosts_settings re fs rules = Inr hs"
      and c: "cleanup_old_piggybacked_files clk hs fs = Inr fs'"
      and e: "e \<in> set hs" and p: "p \<in> set (fst (snd e))" and f: "lookup_file fs p = Some f"
    for e p f
  proof -
    have uniq: "\<forall>e' \<in> set hs. p \<in> set (fst (snd e')) \<longrightarrow> e' = e"
      using listed_entries_unique[OF hs e p] by blast
    from cleanup_old_piggybacked_files_resolved[OF c e p f uniq] obtain mca where
      mca: "max_cache_age (snd (snd e)) (path_name p) (path_name (fst e)) = Inr mca" by blast
    have ex: "(\<exists>e' \<in> set hs. p \<in> set (fst (snd e'))
                \<and> outdated clk (snd (snd e')) (path_name (fst e')) fs p)
              \<longleftrightarrow> outdated clk (snd (snd e)) (path_name (fst e)) fs p"
      using uniq e p by blast
    have lk: "lookup_file fs' p =
        (if outdated clk (snd (snd e)) (path_name (fst e)) fs p then None else Some f)"
      using A[OF c] ex f by simp
    have od: "outdated clk (snd (snd e)) (path_name (fst e)) fs p \<longleftrightarrow>
                 clk p - st_mtime f > real_of_int mca
                 \<and> clk p - st_mtime f
                     > real_of_int (case validity_period (snd (snd e)) (path_name p)
                                           (path_name (fst e)) of
                                      None \<Rightarrow> 0 | Some v \<Rightarrow> v)"
      using f mca by (simp add: outdated_def)
    from mca lk od show ?thesis by auto
  qed
  from A B show ?thesis by blast
qed

text \<open>
  At time 120 with \<open>max_cache_age\<close> 100 everywhere and \<open>validity_period\<close> 500 for the
  source \<open>s2\<close>: \<open>s1\<close> (age 120) goes under both targets, \<open>s2\<close> (age 120, inside its
  validity period) and \<open>s3\<close> (age 20) stay; the emptied folder \<open>t2\<close> is removed, the
  folder \<open>t1\<close> is not empty and stays.
\<close>

theorem payload_retention_witness:
  "get_piggybacked_hosts_settings (\<lambda>p s. Some False)
     \<lparr>piggyback_dir =
        [(''t1'', [(''s1'', \<lparr>data = [], st_atime = 0, st_mtime = 0\<rparr>),
                   (''s2'', \<lparr>data = [], st_atime = 0, st_mtime = 0\<rparr>),
                   (''s3'', \<lparr>data = [], st_atime = 100, st_mtime = 100\<rparr>)]),
         (''t2'', [(''s1'', \<lparr>data = [], st_atime = 0, st_mtime = 0\<rparr>)])],
      piggyback_source_dir = []\<rparr>
     [(None, ''max_cache_age'', 100), (Some ''s2'', ''validity_period'', 500)]
   = Inr [(PiggybackedHostFolder ''t1'',
           [PiggybackedHostSource ''t1'' ''s1'', PiggybackedHostSource ''t1'' ''s2'',
            PiggybackedHostSource ''t1'' ''s3''],
           [(None, ''max_cache_age'') \<mapsto> 100, (Some ''s2'', ''validity_period'') \<mapsto> 500]),
          (PiggybackedHostFolder ''t2'', [PiggybackedHostSource ''t2'' ''s1''],
           [(None, ''max_cache_age'') \<mapsto> 100])]
   \<and> cleanup_old_piggybacked_files (\<lambda>p. 120)
       [(PiggybackedHostFolder ''t1'',
           [PiggybackedHostSource ''t1'' ''s1'', PiggybackedHostSource ''t1'' ''s2'',
            PiggybackedHostSource ''t1'' ''s3''],
           [(None, ''max_cache_age'') \<mapsto> 100, (Some ''s2'', ''validity_period'') \<mapsto> 500]),
          (PiggybackedHostFolder ''t2'', [PiggybackedHostSource ''t2'' ''s1''],
           [(None, ''max_cache_age'') \<mapsto> 100])]
       \<lparr>piggyback_dir =
        [(''t1'', [(''s1'', \<lparr>data = [], st_atime = 0, st_mtime = 0\<rparr>),
                   (''s2'', \<lparr>data = [], st_atime = 0, st_mtime = 0\<rparr>),
                   (''s3'', \<lparr>data = [], st_atime = 100, st_mtime = 100\<rparr>)]),
         (''t2'', [(''s1'', \<lparr>data = [], st_atime = 0, st_mtime = 0\<rparr>)])],
        piggyback_source_dir = []\<rparr>
     = Inr \<lparr>piggyback_dir =
              [(''t1'', [(''s2'', \<lparr>data = [], st_atime = 0, st_mtime = 0\<rparr>),
                         (''s3'', \<lparr>data = [], st_atime = 100, st_mtime = 100\<rparr>)])],
            piggyback_source_dir = []\<rparr>"
proof -
  have a: "get_piggybacked_hosts_settings (\<lambda>p s. Some False)
     \<lparr>piggyback_dir =
        [(''t1'', [(''s1'', \<lparr>data = [], st_atime = 0, st_mtime = 0\<rparr>),
                   (''s2'', \<lparr>data = [], st_atime = 0, st_mtime = 0\<rparr>),
                   (''s3'', \<lparr>data = [], st_atime = 100, st_mtime = 100\<rparr>)]),
         (''t2'', [(''s1'', \<lparr>data = [], st_atime = 0, st_mtime = 0\<rparr>)])],
      piggyback_source_dir = []\<rparr>
     [(None, ''max_cache_age'', 100), (Some ''s2'', ''validity_period'', 500)]
   = Inr [(PiggybackedHostFolder ''t1'',
           [PiggybackedHostSource ''t1'' ''s1'', PiggybackedHostSource ''t1'' ''s2'',
            PiggybackedHostSource ''t1'' ''s3''],
           [(None, ''max_cache_age'') \<mapsto> 100, (Some ''s2'', ''validity_period'') \<mapsto> 500]),
          (PiggybackedHostFolder ''t2'', [PiggybackedHostSource ''t2'' ''s1''],
           [(None, ''max_cache_age'') \<mapsto> 100])]"
    by (simp add: cleanup_defs)
  have b: "cleanup_old_piggybacked_files (\<lambda>p. 120)
       [(PiggybackedHostFolder ''t1'',
           [PiggybackedHostSource ''t1'' ''s1'', PiggybackedHostSource ''t1'' ''s2'',
            PiggybackedHostSource ''t1'' ''s3''],
           [(None, ''max_cache_age'') \<mapsto> 100, (Some ''s2'', ''validity_period'') \<mapsto> 500]),
          (PiggybackedHostFolder ''t2'', [PiggybackedHostSource ''t2'' ''s1''],
           [(None, ''max_cache_age'') \<mapsto> 100])]
       \<lparr>piggyback_dir =
        [(''t1'', [(''s1'', \<lparr>data = [], st_atime = 0, st_mtime = 0\<rparr>),
                   (''s2'', \<lparr>data = [], st_atime = 0, st_mtime = 0\<rparr>),
                   (''s3'', \<lparr>data = [], st_atime = 100, st_mtime = 100\<rparr>)]),
         (''t2'', [(''s1'', \<lparr>data = [], st_atime = 0, st_mtime = 0\<rparr>)])],
        piggyback_source_dir = []\<rparr>
     = Inr \<lparr>piggyback_dir =
              [(''t1'', [(''s2'', \<lparr>data = [], st_atime = 0, st_mtime = 0\<rparr>),
                         (''s3'', \<lparr>data = [], st_atime = 100, st_mtime = 100\<rparr>)])],
            piggyback_source_dir = []\<rparr>"
    by (simp add: cleanup_defs)
  from payload_retention [where clk = "\<lambda>p. 120" and re = "\<lambda>p s. Some False"
      and rules = "[(None, ''max_cache_age'', 100), (Some ''s2'', ''validity_period'', 500)]"
      and fs = "\<lparr>piggyback_dir =
        [(''t1'', [(''s1'', \<lparr>data = [], st_atime = 0, st_mtime = 0\<rparr>),
                   (''s2'', \<lparr>data = [], st_atime = 0, st_mtime = 0\<rparr>),
                   (''s3'', \<lparr>data = [], st_atime = 100, st_mtime = 100\<rparr>)]),
         (''t2'', [(''s1'', \<lparr>data = [], st_atime = 0, st_mtime = 0\<rparr>)])],
        piggyback_source_dir = []\<rparr>"] a b
  show ?thesis by simp
qed

end
